theory Spec2Isabelle
  imports Main "HOL-Library.Word" "HOL-Library.Monad_Syntax" "HOL-Library.Sublist"
begin

section \<open>Headset control: microphone ring buffer and pairing decisions\<close>

text \<open>
  A shallow embedding of \<^verbatim>\<open>headset_control.c\<close>: the microphone data ring
  (\<^verbatim>\<open>headset_control_mic_data_reset\<close>, \<^verbatim>\<open>headset_control_mic_data_add\<close>,
  \<^verbatim>\<open>headset_control_mic_data_add_callback\<close>), the local identity key cache
  (\<^verbatim>\<open>headset_control_local_irk_restore\<close>, \<^verbatim>\<open>headset_control_local_irk_update\<close>),
  the cases of \<^verbatim>\<open>btheadset_control_management_callback\<close> that decide pairing
  answers and forward SCO events, and \<^verbatim>\<open>headset_control_start\<close> with traces of start
  commands and events.

  Each operation is modelled as one atomic step on the global it touches; the mutex that
  brackets the ring operations is not part of the model.
\<close>

subsection \<open>Machine types\<close>

type_synonym uint8_t = "8 word"
type_synonym uint16_t = "16 word"
type_synonym uint32_t = "32 word"

subsection \<open>Memory primitives\<close>

text \<open>
  A byte array is a list; a pointer into it is the list and an offset. \<^verbatim>\<open>memcpy\<close> and
  \<^verbatim>\<open>memset\<close> are defined in C only when both ranges lie inside their objects, so the
  model returns \<open>None\<close> for an access that leaves an array.
\<close>

definition memcpy :: "uint8_t list \<Rightarrow> nat \<Rightarrow> uint8_t list \<Rightarrow> nat \<Rightarrow> nat \<Rightarrow> uint8_t list option" where
  "memcpy dst d src s n =
     (if d + n \<le> length dst \<and> s + n \<le> length src
      then Some (take d dst @ take n (drop s src) @ drop (d + n) dst)
      else None)"

definition memset :: "uint8_t list \<Rightarrow> nat \<Rightarrow> uint8_t \<Rightarrow> nat \<Rightarrow> uint8_t list option" where
  "memset dst d c n =
     (if d + n \<le> length dst
      then Some (take d dst @ replicate n c @ drop (d + n) dst)
      else None)"

subsection \<open>The microphone data ring\<close>

definition HEADSET_CONTROL_MIC_DATA_BUFFER_LEN :: uint32_t where
  "HEADSET_CONTROL_MIC_DATA_BUFFER_LEN = 1024"

record headset_control_mic_data_info_t =
  p_mutex :: nat
  buffer :: "uint8_t list"
  data_len :: uint32_t
  index_start :: uint32_t
  index_end :: uint32_t

text \<open>The global \<^verbatim>\<open>headset_control_mic_data = { 0 }\<close>.\<close>

definition headset_control_mic_data_init :: headset_control_mic_data_info_t where
  "headset_control_mic_data_init =
     \<lparr>p_mutex = 0,
      buffer = replicate (unat HEADSET_CONTROL_MIC_DATA_BUFFER_LEN) 0,
      data_len = 0, index_start = 0, index_end = 0\<rparr>"

definition headset_control_mic_data_reset ::
  "headset_control_mic_data_info_t \<Rightarrow> headset_control_mic_data_info_t option" where
  "headset_control_mic_data_reset md =
     do {
       b \<leftarrow> memset (buffer md) 0 0 (unat HEADSET_CONTROL_MIC_DATA_BUFFER_LEN);
       Some (md\<lparr>buffer := b, data_len := 0, index_start := 0, index_end := 0\<rparr>)
     }"

text \<open>
  The local \<^verbatim>\<open>data_to_be_fill\<close> of \<^verbatim>\<open>headset_control_mic_data_add\<close>: it starts at 0
  and keeps that value on the early return for a full ring.
\<close>

definition add_data_to_be_fill :: "headset_control_mic_data_info_t \<Rightarrow> uint16_t \<Rightarrow> uint32_t" where
  "add_data_to_be_fill md len =
     (if data_len md = HEADSET_CONTROL_MIC_DATA_BUFFER_LEN then 0
      else if ucast len \<le> HEADSET_CONTROL_MIC_DATA_BUFFER_LEN - data_len md then ucast len
      else HEADSET_CONTROL_MIC_DATA_BUFFER_LEN - data_len md)"

definition headset_control_mic_data_add ::
  "headset_control_mic_data_info_t \<Rightarrow> uint8_t list \<Rightarrow> uint16_t \<Rightarrow>
     headset_control_mic_data_info_t option" where
  "headset_control_mic_data_add md p_data len =
     (if data_len md = HEADSET_CONTROL_MIC_DATA_BUFFER_LEN then Some md
      else
        let data_to_be_fill = add_data_to_be_fill md len in
        do {
          b \<leftarrow> (if HEADSET_CONTROL_MIC_DATA_BUFFER_LEN - index_end md \<ge> data_to_be_fill
                then memcpy (buffer md) (unat (index_end md)) p_data 0 (unat data_to_be_fill)
                else do {
                  b1 \<leftarrow> memcpy (buffer md) (unat (index_end md)) p_data 0
                          (unat (HEADSET_CONTROL_MIC_DATA_BUFFER_LEN - index_end md));
                  memcpy b1 0 p_data (unat (HEADSET_CONTROL_MIC_DATA_BUFFER_LEN - index_end md))
                    (unat (data_to_be_fill - (HEADSET_CONTROL_MIC_DATA_BUFFER_LEN - index_end md)))
                });
          let md1 = md\<lparr>buffer := b, data_len := data_len md + data_to_be_fill\<rparr>;
              md2 = md1\<lparr>index_end := index_end md1 + data_to_be_fill\<rparr>;
              md3 = (if index_end md2 \<ge> HEADSET_CONTROL_MIC_DATA_BUFFER_LEN
                     then md2\<lparr>index_end := index_end md2 - HEADSET_CONTROL_MIC_DATA_BUFFER_LEN\<rparr>
                     else md2)
          in Some md3
        })"

text \<open>
  The local \<^verbatim>\<open>data_to_be_fill\<close> of \<^verbatim>\<open>headset_control_mic_data_add_callback\<close>: 0 on
  the early return for an empty ring.
\<close>

definition callback_data_to_be_fill :: "headset_control_mic_data_info_t \<Rightarrow> uint32_t \<Rightarrow> uint32_t" where
  "callback_data_to_be_fill md len =
     (if data_len md = 0 then 0
      else if data_len md \<ge> len then len
      else data_len md)"

text \<open>
  The callback returns the ring, the caller's buffer \<^verbatim>\<open>p_data\<close> as the call leaves it, and
  the \<^verbatim>\<open>wiced_bool_t\<close> result.
\<close>

definition headset_control_mic_data_add_callback ::
  "headset_control_mic_data_info_t \<Rightarrow> uint8_t list \<Rightarrow> uint32_t \<Rightarrow>
     (headset_control_mic_data_info_t \<times> uint8_t list \<times> bool) option" where
  "headset_control_mic_data_add_callback md p_data len =
     (if data_len md = 0 then Some (md, p_data, False)
      else
        let data_to_be_fill = callback_data_to_be_fill md len in
        do {
          p1 \<leftarrow> (if HEADSET_CONTROL_MIC_DATA_BUFFER_LEN - index_start md \<ge> data_to_be_fill
                 then memcpy p_data 0 (buffer md) (unat (index_start md)) (unat data_to_be_fill)
                 else do {
                   q \<leftarrow> memcpy p_data 0 (buffer md) (unat (index_start md))
                         (unat (HEADSET_CONTROL_MIC_DATA_BUFFER_LEN - index_start md));
                   memcpy q (unat (HEADSET_CONTROL_MIC_DATA_BUFFER_LEN - index_start md)) (buffer md) 0
                     (unat (data_to_be_fill - (HEADSET_CONTROL_MIC_DATA_BUFFER_LEN - index_start md)))
                 });
          p2 \<leftarrow> (if data_to_be_fill < len
                 then memset p1 (unat data_to_be_fill) 0 (unat (len - data_to_be_fill))
                 else Some p1);
          let md1 = md\<lparr>data_len := data_len md - data_to_be_fill\<rparr>;
              md2 = md1\<lparr>index_start := index_start md1 + data_to_be_fill\<rparr>;
              md3 = (if index_start md2 \<ge> HEADSET_CONTROL_MIC_DATA_BUFFER_LEN
                     then md2\<lparr>index_start := index_start md2 - HEADSET_CONTROL_MIC_DATA_BUFFER_LEN\<rparr>
                     else md2)
          in Some (md3, p2, True)
        })"

text \<open>
  The two-branch copy into the ring, with its lengths read as naturals: \<open>a\<close> bytes of
  \<open>p\<close> go to \<open>buf\<close> from offset \<open>e\<close>, in one \<^verbatim>\<open>memcpy\<close> when they fit before the
  end of the array and in two otherwise.
\<close>

definition ring_store :: "uint8_t list \<Rightarrow> nat \<Rightarrow> uint8_t list \<Rightarrow> nat \<Rightarrow> uint8_t list option" where
  "ring_store buf e p a =
     (if a \<le> 1024 - e then memcpy buf e p 0 a
      else do { b1 \<leftarrow> memcpy buf e p 0 (1024 - e); memcpy b1 0 p (1024 - e) (a - (1024 - e)) })"

text \<open>The two-branch copy out of the ring, likewise.\<close>

definition ring_load :: "uint8_t list \<Rightarrow> uint8_t list \<Rightarrow> nat \<Rightarrow> nat \<Rightarrow> uint8_t list option" where
  "ring_load p buf s r =
     (if r \<le> 1024 - s then memcpy p 0 buf s r
      else do { q \<leftarrow> memcpy p 0 buf s (1024 - s); memcpy q (1024 - s) buf 0 (r - (1024 - s)) })"

text \<open>
  The states the three operations keep the ring in: the array has its declared size, the
  length is at most the capacity and both cursors index the array.
\<close>

definition mic_data_wf :: "headset_control_mic_data_info_t \<Rightarrow> bool" where
  "mic_data_wf md \<longleftrightarrow>
     length (buffer md) = 1024 \<and> unat (data_len md) \<le> 1024 \<and>
     unat (index_start md) < 1024 \<and> unat (index_end md) < 1024"

text \<open>The write cursor is \<^verbatim>\<open>data_len\<close> bytes ahead of the read cursor, modulo the capacity.\<close>

definition mic_data_inv :: "headset_control_mic_data_info_t \<Rightarrow> bool" where
  "mic_data_inv md \<longleftrightarrow>
     mic_data_wf md \<and>
     unat (index_end md) = (unat (index_start md) + unat (data_len md)) mod 1024"

text \<open>The bytes waiting in the ring, oldest first.\<close>

definition ring_contents :: "headset_control_mic_data_info_t \<Rightarrow> uint8_t list" where
  "ring_contents md =
     take (unat (data_len md))
       (drop (unat (index_start md)) (buffer md) @ take (unat (index_start md)) (buffer md))"

subsection \<open>Sequences of ring operations\<close>

text \<open>
  A call of \<^verbatim>\<open>headset_control_mic_data_add\<close> with its chunk, or of
  \<^verbatim>\<open>headset_control_mic_data_add_callback\<close> with the caller's buffer. A call is well
  formed when the pointer it passes has at least \<^verbatim>\<open>len\<close> bytes behind it.
\<close>

datatype mic_op = Append "uint8_t list" uint16_t | Consume "uint8_t list" uint32_t

fun mic_op_ok :: "mic_op \<Rightarrow> bool" where
  "mic_op_ok (Append p_data len) \<longleftrightarrow> unat len \<le> length p_data"
| "mic_op_ok (Consume p_data len) \<longleftrightarrow> unat len \<le> length p_data"

text \<open>
  A step carries the ring, the bytes accepted so far (the leading \<^verbatim>\<open>data_to_be_fill\<close>
  bytes of each chunk) and the bytes delivered so far (the leading \<^verbatim>\<open>data_to_be_fill\<close>
  bytes of each output, the part before the zero padding).
\<close>

fun mic_step ::
  "headset_control_mic_data_info_t \<times> uint8_t list \<times> uint8_t list \<Rightarrow> mic_op \<Rightarrow>
     (headset_control_mic_data_info_t \<times> uint8_t list \<times> uint8_t list) option" where
  "mic_step (md, accepted, delivered) (Append p_data len) =
     do {
       md' \<leftarrow> headset_control_mic_data_add md p_data len;
       Some (md', accepted @ take (unat (add_data_to_be_fill md len)) p_data, delivered)
     }"
| "mic_step (md, accepted, delivered) (Consume p_data len) =
     do {
       (md', out, has_data) \<leftarrow> headset_control_mic_data_add_callback md p_data len;
       Some (md', accepted, delivered @ take (unat (callback_data_to_be_fill md len)) out)
     }"

fun mic_run ::
  "headset_control_mic_data_info_t \<times> uint8_t list \<times> uint8_t list \<Rightarrow> mic_op list \<Rightarrow>
     (headset_control_mic_data_info_t \<times> uint8_t list \<times> uint8_t list) option" where
  "mic_run t [] = Some t"
| "mic_run t (x # xs) = do { t' \<leftarrow> mic_step t x; mic_run t' xs }"

subsection \<open>Results, event data and the collaborators\<close>

text \<open>
  The codes of \<^verbatim>\<open>wiced_result_t\<close> that the file names; every other code of the enum is
  \<open>WICED_BT_RESULT_OTHER\<close>.
\<close>

datatype wiced_result_t =
    WICED_BT_SUCCESS
  | WICED_BT_ERROR
  | WICED_BT_NO_RESOURCES
  | WICED_BT_USE_DEFAULT_SECURITY
  | WICED_BT_RESULT_OTHER nat

datatype wiced_bt_dev_io_cap_t =
    BTM_IO_CAPABILITIES_NONE
  | BTM_IO_CAPABILITIES_DISPLAY_AND_YES_NO_INPUT
  | BTM_IO_CAPABILITIES_OTHER nat

datatype wiced_bt_dev_auth_req_t =
    BTM_AUTH_SINGLE_PROFILE_GENERAL_BONDING_NO
  | BTM_AUTH_REQ_OTHER nat

datatype wiced_bt_dev_oob_data_t = BTM_OOB_NONE | BTM_OOB_OTHER nat

datatype wiced_bt_dev_le_auth_req_t = BTM_LE_AUTH_REQ_SC_MITM_BOND | BTM_LE_AUTH_REQ_OTHER nat

text \<open>A key mask is the set of its flags; \<^verbatim>\<open>|\<close> on masks is union.\<close>

datatype wiced_bt_dev_le_key_type_t =
    BTM_LE_KEY_PENC
  | BTM_LE_KEY_PID
  | BTM_LE_KEY_PCSRK
  | BTM_LE_KEY_LENC
  | BTM_LE_KEY_OTHER nat

record wiced_bt_dev_bredr_io_caps_req_t =
  bredr_bd_addr :: "uint8_t list"
  bredr_local_io_cap :: wiced_bt_dev_io_cap_t
  bredr_auth_req :: wiced_bt_dev_auth_req_t
  bredr_oob_data :: bool

record wiced_bt_dev_ble_io_caps_req_t =
  ble_bd_addr :: "uint8_t list"
  ble_local_io_cap :: wiced_bt_dev_io_cap_t
  ble_oob_data :: wiced_bt_dev_oob_data_t
  ble_auth_req :: wiced_bt_dev_le_auth_req_t
  ble_max_key_size :: uint8_t
  ble_init_keys :: "wiced_bt_dev_le_key_type_t set"
  ble_resp_keys :: "wiced_bt_dev_le_key_type_t set"

text \<open>
  An event of the management callback with the member of \<^verbatim>\<open>wiced_bt_management_evt_data_t\<close>
  that it carries. These are the cases of the \<^verbatim>\<open>switch\<close> that answer pairing and key
  requests and forward SCO events; the other cases are not modelled. The identity key events
  carry the bytes of a \<^verbatim>\<open>wiced_bt_local_identity_keys_t\<close>, the SCO events their data as
  bytes.
\<close>

datatype wiced_bt_management_evt =
    BTM_PAIRING_IO_CAPABILITIES_BR_EDR_REQUEST_EVT wiced_bt_dev_bredr_io_caps_req_t
  | BTM_PAIRING_IO_CAPABILITIES_BLE_REQUEST_EVT wiced_bt_dev_ble_io_caps_req_t
  | BTM_SECURITY_REQUEST_EVT "uint8_t list"
  | BTM_LOCAL_IDENTITY_KEYS_UPDATE_EVT "uint8_t list"
  | BTM_LOCAL_IDENTITY_KEYS_REQUEST_EVT "uint8_t list"
  | BTM_SCO_CONNECTED_EVT "uint8_t list"
  | BTM_SCO_DISCONNECTED_EVT "uint8_t list"
  | BTM_SCO_CONNECTION_REQUEST_EVT "uint8_t list"
  | BTM_SCO_CONNECTION_CHANGE_EVT "uint8_t list"

datatype nvram_id = HEADSET_NVRAM_ID_LOCAL_IRK

text \<open>The calls into the stack, the persistence layer and the call control, in order.\<close>

datatype ext_call =
    wiced_hal_read_nvram nvram_id nat
  | wiced_hal_write_nvram nvram_id nat "uint8_t list"
  | wiced_bt_ble_security_grant "uint8_t list" wiced_result_t
  | hf_sco_management_callback wiced_bt_management_evt
  | wiced_bt_create_heap
  | wiced_bt_stack_init
  | wiced_audio_buffer_initialize

text \<open>
  What the code reads from outside this file: the build flag \<^verbatim>\<open>FASTPAIR_ENABLE\<close>, the
  value of the macro \<^verbatim>\<open>BTM_SECURITY_LOCAL_KEY_DATA_LEN\<close> (defined in a stack header, so a
  parameter here), the fast pair provider's pairing state, \<^verbatim>\<open>hci_control_cb.pairing_allowed\<close>,
  and what the persistence layer answers to a read and to a write.
\<close>

record environment =
  FASTPAIR_ENABLE :: bool
  BTM_SECURITY_LOCAL_KEY_DATA_LEN :: nat
  wiced_bt_gfps_provider_pairing_state_get :: bool
  pairing_allowed :: bool
  nvram_read_data :: "uint8_t list"
  nvram_read_result :: wiced_result_t
  nvram_write_nb_bytes :: uint16_t
  nvram_write_result :: wiced_result_t

subsection \<open>The local identity resolving key\<close>

record headset_control_local_irk_info_t =
  local_irk :: "uint8_t list"
  result :: wiced_result_t

text \<open>
  \<^verbatim>\<open>memcmp\<close> compares the first \<open>n\<close> bytes of both objects as unsigned values and is
  defined when both have that many.
\<close>

fun memcmp_bytes :: "uint8_t list \<Rightarrow> uint8_t list \<Rightarrow> int" where
  "memcmp_bytes (x # xs) (y # ys) =
     (if x = y then memcmp_bytes xs ys else int (unat x) - int (unat y))"
| "memcmp_bytes _ _ = 0"

definition memcmp :: "uint8_t list \<Rightarrow> uint8_t list \<Rightarrow> nat \<Rightarrow> int option" where
  "memcmp a b n =
     (if n \<le> length a \<and> n \<le> length b then Some (memcmp_bytes (take n a) (take n b)) else None)"

text \<open>
  \<^verbatim>\<open>headset_control_local_irk_restore\<close>: the read stores at most the requested number of
  bytes at the start of \<^verbatim>\<open>local_irk\<close> and its status in \<^verbatim>\<open>result\<close>.
\<close>

definition headset_control_local_irk_restore ::
  "environment \<Rightarrow> headset_control_local_irk_info_t \<Rightarrow>
     headset_control_local_irk_info_t \<times> ext_call list" where
  "headset_control_local_irk_restore env info =
     (let d = take (BTM_SECURITY_LOCAL_KEY_DATA_LEN env) (nvram_read_data env)
      in (info\<lparr>local_irk := d @ drop (length d) (local_irk info),
                result := nvram_read_result env\<rparr>,
          [wiced_hal_read_nvram HEADSET_NVRAM_ID_LOCAL_IRK (BTM_SECURITY_LOCAL_KEY_DATA_LEN env)]))"

definition headset_control_local_irk_update ::
  "environment \<Rightarrow> headset_control_local_irk_info_t \<Rightarrow> uint8_t list \<Rightarrow>
     (headset_control_local_irk_info_t \<times> ext_call list) option" where
  "headset_control_local_irk_update env info p_key =
     do {
       c \<leftarrow> memcmp p_key (local_irk info) (BTM_SECURITY_LOCAL_KEY_DATA_LEN env);
       if c \<noteq> 0 then
         let nb_bytes = nvram_write_nb_bytes env;
             res = nvram_write_result env;
             calls = [wiced_hal_write_nvram HEADSET_NVRAM_ID_LOCAL_IRK
                        (BTM_SECURITY_LOCAL_KEY_DATA_LEN env)
                        (take (BTM_SECURITY_LOCAL_KEY_DATA_LEN env) p_key)]
         in if unat nb_bytes = BTM_SECURITY_LOCAL_KEY_DATA_LEN env \<and> res = WICED_BT_SUCCESS
            then do {
              k \<leftarrow> memcpy (local_irk info) 0 p_key 0 (BTM_SECURITY_LOCAL_KEY_DATA_LEN env);
              Some (info\<lparr>local_irk := k, result := res\<rparr>, calls)
            }
            else Some (info, calls)
       else Some (info, [])
     }"

subsection \<open>The management callback\<close>

record app_state =
  local_irk_info :: headset_control_local_irk_info_t
  headset_control_mic_data :: headset_control_mic_data_info_t

text \<open>
  The shared body of the four SCO cases: the event goes to \<^verbatim>\<open>hf_sco_management_callback\<close>,
  then \<^verbatim>\<open>BTM_SCO_DISCONNECTED_EVT\<close> resets the ring.
\<close>

definition sco_case ::
  "app_state \<Rightarrow> wiced_bt_management_evt \<Rightarrow>
     (wiced_result_t \<times> wiced_bt_management_evt \<times> app_state \<times> ext_call list) option" where
  "sco_case st ev =
     do {
       st' \<leftarrow> (case ev of
                 BTM_SCO_DISCONNECTED_EVT d \<Rightarrow>
                   do {
                     md \<leftarrow> headset_control_mic_data_reset (headset_control_mic_data st);
                     Some (st\<lparr>headset_control_mic_data := md\<rparr>)
                   }
               | _ \<Rightarrow> Some st);
       Some (WICED_BT_SUCCESS, ev, st', [hf_sco_management_callback ev])
     }"

text \<open>
  The callback returns its \<^verbatim>\<open>wiced_result_t\<close> (initialised to \<^verbatim>\<open>WICED_BT_SUCCESS\<close>), the
  event data as the call leaves it, the globals, and the calls it made.
\<close>

fun btheadset_control_management_callback ::
  "environment \<Rightarrow> app_state \<Rightarrow> wiced_bt_management_evt \<Rightarrow>
     (wiced_result_t \<times> wiced_bt_management_evt \<times> app_state \<times> ext_call list) option" where
  "btheadset_control_management_callback env st (BTM_PAIRING_IO_CAPABILITIES_BR_EDR_REQUEST_EVT d) =
     (let d1 = (if FASTPAIR_ENABLE env \<and> wiced_bt_gfps_provider_pairing_state_get env
                then d\<lparr>bredr_local_io_cap := BTM_IO_CAPABILITIES_DISPLAY_AND_YES_NO_INPUT\<rparr>
                else d\<lparr>bredr_local_io_cap := BTM_IO_CAPABILITIES_NONE\<rparr>);
          d2 = d1\<lparr>bredr_auth_req := BTM_AUTH_SINGLE_PROFILE_GENERAL_BONDING_NO\<rparr>;
          d3 = d2\<lparr>bredr_oob_data := False\<rparr>
      in Some (WICED_BT_SUCCESS, BTM_PAIRING_IO_CAPABILITIES_BR_EDR_REQUEST_EVT d3, st, []))"
| "btheadset_control_management_callback env st (BTM_PAIRING_IO_CAPABILITIES_BLE_REQUEST_EVT d) =
     (let d1 = d\<lparr>ble_local_io_cap := BTM_IO_CAPABILITIES_NONE\<rparr>;
          d2 = d1\<lparr>ble_oob_data := BTM_OOB_NONE\<rparr>;
          d3 = d2\<lparr>ble_auth_req := BTM_LE_AUTH_REQ_SC_MITM_BOND\<rparr>;
          d4 = d3\<lparr>ble_max_key_size := 16\<rparr>;
          d5 = d4\<lparr>ble_init_keys :=
                      {BTM_LE_KEY_PENC} \<union> {BTM_LE_KEY_PID} \<union> {BTM_LE_KEY_PCSRK} \<union> {BTM_LE_KEY_LENC}\<rparr>;
          d6 = d5\<lparr>ble_resp_keys :=
                      {BTM_LE_KEY_PENC} \<union> {BTM_LE_KEY_PID} \<union> {BTM_LE_KEY_PCSRK} \<union> {BTM_LE_KEY_LENC}\<rparr>
      in Some (WICED_BT_SUCCESS, BTM_PAIRING_IO_CAPABILITIES_BLE_REQUEST_EVT d6, st, []))"
| "btheadset_control_management_callback env st (BTM_SECURITY_REQUEST_EVT bd_addr) =
     (if pairing_allowed env
      then Some (WICED_BT_SUCCESS, BTM_SECURITY_REQUEST_EVT bd_addr, st,
                 [wiced_bt_ble_security_grant bd_addr WICED_BT_SUCCESS])
      else Some (WICED_BT_ERROR, BTM_SECURITY_REQUEST_EVT bd_addr, st, []))"
| "btheadset_control_management_callback env st (BTM_LOCAL_IDENTITY_KEYS_UPDATE_EVT keys) =
     do {
       (info, calls) \<leftarrow> headset_control_local_irk_update env (local_irk_info st) keys;
       Some (WICED_BT_SUCCESS, BTM_LOCAL_IDENTITY_KEYS_UPDATE_EVT keys,
             st\<lparr>local_irk_info := info\<rparr>, calls)
     }"
| "btheadset_control_management_callback env st (BTM_LOCAL_IDENTITY_KEYS_REQUEST_EVT keys) =
     (if result (local_irk_info st) = WICED_BT_SUCCESS
      then do {
        keys' \<leftarrow> memcpy keys 0 (local_irk (local_irk_info st)) 0 (BTM_SECURITY_LOCAL_KEY_DATA_LEN env);
        Some (WICED_BT_SUCCESS, BTM_LOCAL_IDENTITY_KEYS_REQUEST_EVT keys', st, [])
      }
      else Some (WICED_BT_NO_RESOURCES, BTM_LOCAL_IDENTITY_KEYS_REQUEST_EVT keys, st, []))"
| "btheadset_control_management_callback env st (BTM_SCO_CONNECTED_EVT d) =
     sco_case st (BTM_SCO_CONNECTED_EVT d)"
| "btheadset_control_management_callback env st (BTM_SCO_DISCONNECTED_EVT d) =
     sco_case st (BTM_SCO_DISCONNECTED_EVT d)"
| "btheadset_control_management_callback env st (BTM_SCO_CONNECTION_REQUEST_EVT d) =
     sco_case st (BTM_SCO_CONNECTION_REQUEST_EVT d)"
| "btheadset_control_management_callback env st (BTM_SCO_CONNECTION_CHANGE_EVT d) =
     sco_case st (BTM_SCO_CONNECTION_CHANGE_EVT d)"

subsection \<open>Start-up and traces of commands and events\<close>

text \<open>
  What \<^verbatim>\<open>headset_control_start\<close> reads from outside this file: whether the build has
  \<^verbatim>\<open>BTSTACK_VER >= 0x03000001\<close>, whether the heap was created, and the results of the stack
  and audio buffer initialisation.
\<close>

record start_environment =
  BTSTACK_VER_GE_03000001 :: bool
  wiced_bt_create_heap_ok :: bool
  wiced_bt_stack_init_result :: wiced_result_t
  wiced_audio_buffer_initialize_result :: wiced_result_t

text \<open>
  \<^verbatim>\<open>headset_control_start\<close>: each failed check returns at once; the restore of the local
  identity key is the last statement.
\<close>

definition headset_control_start ::
  "start_environment \<Rightarrow> environment \<Rightarrow> headset_control_local_irk_info_t \<Rightarrow> uint32_t \<Rightarrow>
     headset_control_local_irk_info_t \<times> ext_call list" where
  "headset_control_start senv env info len =
     (if len \<noteq> 0 then (info, [])
      else
        let heap = (if BTSTACK_VER_GE_03000001 senv then [wiced_bt_create_heap] else [])
        in if BTSTACK_VER_GE_03000001 senv \<and> \<not> wiced_bt_create_heap_ok senv then (info, heap)
           else if wiced_bt_stack_init_result senv \<noteq> WICED_BT_SUCCESS
             then (info, heap @ [wiced_bt_stack_init])
           else if wiced_audio_buffer_initialize_result senv \<noteq> WICED_BT_SUCCESS
             then (info, heap @ [wiced_bt_stack_init, wiced_audio_buffer_initialize])
           else
             let (info', calls) = headset_control_local_irk_restore env info
             in (info', heap @ [wiced_bt_stack_init, wiced_audio_buffer_initialize] @ calls))"

text \<open>
  The global \<^verbatim>\<open>local_irk_info = { 0 }\<close>: every byte of the key is zero and \<^verbatim>\<open>result\<close>
  holds the code 0 of \<^verbatim>\<open>wiced_result_t\<close>. The size of \<^verbatim>\<open>wiced_bt_local_identity_keys_t\<close>
  and the result that has the code 0 are declared in stack headers, so both are parameters.
\<close>

definition local_irk_info_init :: "nat \<Rightarrow> wiced_result_t \<Rightarrow> headset_control_local_irk_info_t" where
  "local_irk_info_init n code0 = \<lparr>local_irk = replicate n 0, result = code0\<rparr>"

definition app_state_init :: "nat \<Rightarrow> wiced_result_t \<Rightarrow> app_state" where
  "app_state_init n code0 =
     \<lparr>local_irk_info = local_irk_info_init n code0,
      headset_control_mic_data = headset_control_mic_data_init\<rparr>"

text \<open>
  What reaches the application: the start command with the length of its payload, and
  the events of the stack. A step returns the globals and the answer given to the stack
  (none for the command).
\<close>

datatype app_input =
    HCI_CONTROL_HCI_AUDIO_COMMAND_BT_START start_environment environment uint32_t
  | MANAGEMENT_EVT environment wiced_bt_management_evt

fun app_step ::
  "app_state \<Rightarrow> app_input \<Rightarrow>
     (app_state \<times> (wiced_result_t \<times> wiced_bt_management_evt) list) option" where
  "app_step st (HCI_CONTROL_HCI_AUDIO_COMMAND_BT_START senv env len) =
     (let (info, calls) = headset_control_start senv env (local_irk_info st) len
      in Some (st\<lparr>local_irk_info := info\<rparr>, []))"
| "app_step st (MANAGEMENT_EVT env ev) =
     do {
       (r, ev', st', calls) \<leftarrow> btheadset_control_management_callback env st ev;
       Some (st', [(r, ev')])
     }"

fun app_run ::
  "app_state \<Rightarrow> app_input list \<Rightarrow>
     (app_state \<times> (wiced_result_t \<times> wiced_bt_management_evt) list) option" where
  "app_run st [] = Some (st, [])"
| "app_run st (x # xs) =
     do {
       (st', a) \<leftarrow> app_step st x;
       (st'', rest) \<leftarrow> app_run st' xs;
       Some (st'', a @ rest)
     }"

text \<open>
  The status that a step records in \<^verbatim>\<open>local_irk_info.result\<close>: a start that reaches the
  restore records the status of the read; an identity key update whose key differs from the
  cached one and whose write stores all the bytes with success records success; every other
  step records nothing.
\<close>

fun recorded_by :: "app_state \<Rightarrow> app_input \<Rightarrow> wiced_result_t option" where
  "recorded_by st (HCI_CONTROL_HCI_AUDIO_COMMAND_BT_START senv env len) =
     (if len = 0 \<and>
         (if BTSTACK_VER_GE_03000001 senv then wiced_bt_create_heap_ok senv else True) \<and>
         wiced_bt_stack_init_result senv = WICED_BT_SUCCESS \<and>
         wiced_audio_buffer_initialize_result senv = WICED_BT_SUCCESS
      then Some (nvram_read_result env) else None)"
| "recorded_by st (MANAGEMENT_EVT env (BTM_LOCAL_IDENTITY_KEYS_UPDATE_EVT keys)) =
     (if take (BTM_SECURITY_LOCAL_KEY_DATA_LEN env) keys \<noteq>
           take (BTM_SECURITY_LOCAL_KEY_DATA_LEN env) (local_irk (local_irk_info st)) \<and>
         unat (nvram_write_nb_bytes env) = BTM_SECURITY_LOCAL_KEY_DATA_LEN env \<and>
         nvram_write_result env = WICED_BT_SUCCESS
      then Some WICED_BT_SUCCESS else None)"
| "recorded_by st (MANAGEMENT_EVT env ev) = None"

text \<open>The status most recently recorded along a trace, \<open>None\<close> when no step recorded one.\<close>

fun last_recorded :: "app_state \<Rightarrow> app_input list \<Rightarrow> wiced_result_t option" where
  "last_recorded st [] = None"
| "last_recorded st (x # xs) =
     (case app_step st x of
        None \<Rightarrow> None
      | Some (st', a) \<Rightarrow>
          (case last_recorded st' xs of
             Some r \<Rightarrow> Some r
           | None \<Rightarrow> recorded_by st x))"

subsection \<open>The kinds of key the specification names\<close>

text \<open>
  Modelled from the spec: the four kinds of LE key flag that the specification lists for
  the LE request, Encryption, Identity, SigningKey and LinkKey. The stack header that
  declares the flags is not among the sources; a flag's kind is read off its name:
  \<^verbatim>\<open>ENC\<close> is an encryption key, \<^verbatim>\<open>ID\<close> an identity key, \<^verbatim>\<open>CSRK\<close> a signing key, and the
  leading \<^verbatim>\<open>P\<close> or \<^verbatim>\<open>L\<close> tells the peer's key from the local one.
\<close>

datatype le_key_kind = Encryption | Identity | SigningKey | LinkKey

fun le_key_kind_of :: "wiced_bt_dev_le_key_type_t \<Rightarrow> le_key_kind option" where
  "le_key_kind_of BTM_LE_KEY_PENC = Some Encryption"
| "le_key_kind_of BTM_LE_KEY_PID = Some Identity"
| "le_key_kind_of BTM_LE_KEY_PCSRK = Some SigningKey"
| "le_key_kind_of BTM_LE_KEY_LENC = Some Encryption"
| "le_key_kind_of (BTM_LE_KEY_OTHER n) = None"

definition le_key_kinds :: "wiced_bt_dev_le_key_type_t set \<Rightarrow> le_key_kind set" where
  "le_key_kinds ks = (\<Union>k\<in>ks. set_option (le_key_kind_of k))"

subsection \<open>Example states\<close>

text \<open>An empty ring whose cursors stand two bytes before the end of the array.\<close>

definition example_wrapped_ring :: headset_control_mic_data_info_t where
  "example_wrapped_ring =
     \<lparr>p_mutex = 0, buffer = replicate 1024 0, data_len = 0, index_start = 1022, index_end = 1022\<rparr>"

text \<open>A ring that holds the bytes 1, 2, 3 across the end of the array.\<close>

definition example_stored_ring :: headset_control_mic_data_info_t where
  "example_stored_ring =
     \<lparr>p_mutex = 0, buffer = [3] @ replicate 1021 0 @ [1, 2], data_len = 3,
      index_start = 1022, index_end = 1\<rparr>"

text \<open>
  A fast pair build with a 16-byte key, the seeker pairing, pairing not allowed, a failed
  read and a write that succeeds.
\<close>

definition example_env :: environment where
  "example_env =
     \<lparr>FASTPAIR_ENABLE = True, BTM_SECURITY_LOCAL_KEY_DATA_LEN = 16,
      wiced_bt_gfps_provider_pairing_state_get = True, pairing_allowed = False,
      nvram_read_data = [], nvram_read_result = WICED_BT_ERROR,
      nvram_write_nb_bytes = 16, nvram_write_result = WICED_BT_SUCCESS\<rparr>"

definition example_key :: "uint8_t list" where
  "example_key = [1, 2, 3, 4, 5, 6, 7, 8, 9, 10, 11, 12, 13, 14, 15, 16]"

definition example_state :: app_state where
  "example_state =
     \<lparr>local_irk_info = \<lparr>local_irk = replicate 16 0, result = WICED_BT_ERROR\<rparr>,
      headset_control_mic_data = example_stored_ring\<rparr>"

text \<open>A start in which the stack comes up and the audio buffers do not.\<close>

definition example_start_env :: start_environment where
  "example_start_env =
     \<lparr>BTSTACK_VER_GE_03000001 = True, wiced_bt_create_heap_ok = True,
      wiced_bt_stack_init_result = WICED_BT_SUCCESS,
      wiced_audio_buffer_initialize_result = WICED_BT_ERROR\<rparr>"

definition example_ble_request :: wiced_bt_dev_ble_io_caps_req_t where
  "example_ble_request =
     \<lparr>ble_bd_addr = [1, 2, 3, 4, 5, 6], ble_local_io_cap = BTM_IO_CAPABILITIES_OTHER 0,
      ble_oob_data = BTM_OOB_OTHER 0, ble_auth_req = BTM_LE_AUTH_REQ_OTHER 0,
      ble_max_key_size = 0, ble_init_keys = {}, ble_resp_keys = {}\<rparr>"

section \<open>Properties\<close>

subsection \<open>Word arithmetic below the capacity\<close>

lemma unat_BL [simp]: "unat HEADSET_CONTROL_MIC_DATA_BUFFER_LEN = 1024"
  by (simp add: HEADSET_CONTROL_MIC_DATA_BUFFER_LEN_def)

lemma unat_BL_minus: "unat x \<le> 1024 \<Longrightarrow> unat (HEADSET_CONTROL_MIC_DATA_BUFFER_LEN - x) = 1024 - unat x"
  for x :: uint32_t
  by (simp add: HEADSET_CONTROL_MIC_DATA_BUFFER_LEN_def unat_sub word_le_nat_alt)

lemma unat_small_add: "unat x \<le> 1024 \<Longrightarrow> unat y \<le> 1024 \<Longrightarrow> unat (x + y) = unat x + unat y"
  for x y :: uint32_t
  by (simp add: unat_add_lem [THEN iffD1])

lemma unat_ucast_len: "unat (ucast (len :: uint16_t) :: uint32_t) = unat len"
proof -
  have "unat len < 2 ^ 16" using unsigned_less [of len, where 'a=nat] by simp
  then have "unat len < 2 ^ 32" by simp
  then show ?thesis
    by (simp add: unsigned_ucast_eq take_bit_nat_eq_self)
qed

lemma add_fill: "unat (data_len md) \<le> 1024 \<Longrightarrow> data_len md \<noteq> HEADSET_CONTROL_MIC_DATA_BUFFER_LEN \<Longrightarrow>
  unat (add_data_to_be_fill md len) = min (unat len) (1024 - unat (data_len md))"
  by (auto simp: add_data_to_be_fill_def word_le_nat_alt unat_BL_minus unat_ucast_len)

lemma cb_fill: "unat (callback_data_to_be_fill md len) = min (unat len) (unat (data_len md))"
  by (auto simp: callback_data_to_be_fill_def word_le_nat_alt)

subsection \<open>Copies\<close>

lemma mod_wrap: "x < 2048 \<Longrightarrow> x mod 1024 = (if x < 1024 then x else x - 1024)" for x :: nat
  by (auto simp: mod_if le_mod_geq)

lemma memcpy_len: "memcpy dst d src s n = Some r \<Longrightarrow> length r = length dst"
  by (auto simp: memcpy_def split: if_splits)

lemma memcpy_nth: "memcpy dst d src s n = Some r \<Longrightarrow> j < length dst \<Longrightarrow>
   r ! j = (if d \<le> j \<and> j < d + n then src ! (s + (j - d)) else dst ! j)"
  by (auto simp: memcpy_def nth_append split: if_splits)

lemma memcpy_Some: "d + n \<le> length dst \<Longrightarrow> s + n \<le> length src \<Longrightarrow> \<exists>r. memcpy dst d src s n = Some r"
  by (simp add: memcpy_def)

lemma memset_len: "memset dst d c n = Some r \<Longrightarrow> length r = length dst"
  by (auto simp: memset_def split: if_splits)

lemma memset_nth: "memset dst d c n = Some r \<Longrightarrow> j < length dst \<Longrightarrow>
   r ! j = (if d \<le> j \<and> j < d + n then c else dst ! j)"
  by (auto simp: memset_def nth_append split: if_splits)

lemma ring_store_ok:
  assumes "length buf = 1024" "e < 1024" "a \<le> 1024" "a \<le> length p"
  shows "\<exists>b. ring_store buf e p a = Some b \<and> length b = 1024 \<and>
     (\<forall>j<1024. b ! j = (if (j + 1024 - e) mod 1024 < a then p ! ((j + 1024 - e) mod 1024) else buf ! j))"
proof (cases "a \<le> 1024 - e")
  case True
  with assms have "e + a \<le> length buf" by simp
  with assms obtain b where b: "memcpy buf e p 0 a = Some b"
    using memcpy_Some [of e a buf 0 p] by auto
  have "length b = 1024" using memcpy_len [OF b] assms by simp
  moreover have "\<forall>j<1024. b ! j = (if (j + 1024 - e) mod 1024 < a then p ! ((j + 1024 - e) mod 1024) else buf ! j)"
    using assms True by (auto simp: memcpy_nth [OF b] mod_wrap)
  ultimately show ?thesis using True b by (simp add: ring_store_def)
next
  case False
  with assms obtain b1 where b1: "memcpy buf e p 0 (1024 - e) = Some b1"
    using memcpy_Some [of e "1024 - e" buf 0 p] by auto
  have l1: "length b1 = 1024" using memcpy_len [OF b1] assms by simp
  have "0 + (a - (1024 - e)) \<le> length b1" "(1024 - e) + (a - (1024 - e)) \<le> length p"
    using False assms l1 by simp_all
  then obtain b where b: "memcpy b1 0 p (1024 - e) (a - (1024 - e)) = Some b"
    using memcpy_Some by blast
  have "length b = 1024" using memcpy_len [OF b] l1 by simp
  moreover have "\<forall>j<1024. b ! j = (if (j + 1024 - e) mod 1024 < a then p ! ((j + 1024 - e) mod 1024) else buf ! j)"
    using assms False l1 by (auto simp: memcpy_nth [OF b] memcpy_nth [OF b1] mod_wrap add.commute)
  ultimately show ?thesis using False b b1 by (simp add: ring_store_def)
qed

subsection \<open>One call on a ring in a kept state\<close>

lemma wrap_end:
  fixes x f :: uint32_t
  assumes "unat x < 1024" "unat f \<le> 1024"
  shows "unat (if x + f \<ge> HEADSET_CONTROL_MIC_DATA_BUFFER_LEN then x + f - HEADSET_CONTROL_MIC_DATA_BUFFER_LEN else x + f)
           = (unat x + unat f) mod 1024"
proof -
  have s: "unat (x + f) = unat x + unat f" using assms by (simp add: unat_small_add)
  show ?thesis
  proof (cases "x + f \<ge> HEADSET_CONTROL_MIC_DATA_BUFFER_LEN")
    case True
    then have "unat (x + f - HEADSET_CONTROL_MIC_DATA_BUFFER_LEN) = unat (x + f) - 1024"
      by (simp add: unat_sub)
    with True s assms show ?thesis by (simp add: word_le_nat_alt mod_wrap)
  next
    case False
    with s assms show ?thesis by (simp add: word_le_nat_alt mod_wrap)
  qed
qed

lemma add_copy_eq:
  assumes "mic_data_wf md" "data_len md \<noteq> HEADSET_CONTROL_MIC_DATA_BUFFER_LEN"
  shows "(if HEADSET_CONTROL_MIC_DATA_BUFFER_LEN - index_end md \<ge> add_data_to_be_fill md len
                then memcpy (buffer md) (unat (index_end md)) p_data 0 (unat (add_data_to_be_fill md len))
                else do {
                  b1 \<leftarrow> memcpy (buffer md) (unat (index_end md)) p_data 0
                          (unat (HEADSET_CONTROL_MIC_DATA_BUFFER_LEN - index_end md));
                  memcpy b1 0 p_data (unat (HEADSET_CONTROL_MIC_DATA_BUFFER_LEN - index_end md))
                    (unat (add_data_to_be_fill md len - (HEADSET_CONTROL_MIC_DATA_BUFFER_LEN - index_end md)))
                })
    = ring_store (buffer md) (unat (index_end md)) p_data (min (unat len) (1024 - unat (data_len md)))"
proof -
  have f: "unat (add_data_to_be_fill md len) = min (unat len) (1024 - unat (data_len md))"
    using assms by (simp add: add_fill mic_data_wf_def)
  have m: "unat (HEADSET_CONTROL_MIC_DATA_BUFFER_LEN - index_end md) = 1024 - unat (index_end md)"
    using assms by (simp add: unat_BL_minus mic_data_wf_def)
  show ?thesis
  proof (cases "HEADSET_CONTROL_MIC_DATA_BUFFER_LEN - index_end md \<ge> add_data_to_be_fill md len")
    case True
    then show ?thesis using f m by (simp add: ring_store_def word_le_nat_alt)
  next
    case False
    then have "unat (add_data_to_be_fill md len - (HEADSET_CONTROL_MIC_DATA_BUFFER_LEN - index_end md))
       = unat (add_data_to_be_fill md len) - unat (HEADSET_CONTROL_MIC_DATA_BUFFER_LEN - index_end md)"
      by (simp add: unat_sub)
    with False show ?thesis using f m by (simp add: ring_store_def word_le_nat_alt)
  qed
qed

lemma add_step:
  assumes wf: "mic_data_wf md" and nf: "data_len md \<noteq> HEADSET_CONTROL_MIC_DATA_BUFFER_LEN"
    and lp: "unat len \<le> length p_data"
  shows "\<exists>md'. headset_control_mic_data_add md p_data len = Some md' \<and>
     ring_store (buffer md) (unat (index_end md)) p_data
       (min (unat len) (1024 - unat (data_len md))) = Some (buffer md') \<and>
     length (buffer md') = 1024 \<and>
     (\<forall>j<1024. buffer md' ! j =
        (if (j + 1024 - unat (index_end md)) mod 1024 < min (unat len) (1024 - unat (data_len md))
         then p_data ! ((j + 1024 - unat (index_end md)) mod 1024) else buffer md ! j)) \<and>
     unat (data_len md') = unat (data_len md) + min (unat len) (1024 - unat (data_len md)) \<and>
     unat (index_end md') = (unat (index_end md) + min (unat len) (1024 - unat (data_len md))) mod 1024 \<and>
     index_start md' = index_start md \<and> p_mutex md' = p_mutex md"
proof -
  define a where "a = min (unat len) (1024 - unat (data_len md))"
  have f: "unat (add_data_to_be_fill md len) = a"
    using wf nf by (simp add: add_fill mic_data_wf_def a_def)
  have a: "a \<le> 1024" "a \<le> length p_data" using lp by (simp_all add: a_def)
  have w: "length (buffer md) = 1024" "unat (index_end md) < 1024" "unat (data_len md) \<le> 1024"
    using wf by (simp_all add: mic_data_wf_def)
  obtain b where b: "ring_store (buffer md) (unat (index_end md)) p_data a = Some b"
      "length b = 1024"
      "\<forall>j<1024. b ! j = (if (j + 1024 - unat (index_end md)) mod 1024 < a
         then p_data ! ((j + 1024 - unat (index_end md)) mod 1024) else buffer md ! j)"
    using ring_store_ok [OF w(1) w(2) a] by blast
  have dl: "unat (data_len md + add_data_to_be_fill md len) = unat (data_len md) + a"
    using w a f by (simp add: unat_small_add)
  have ie: "unat (if index_end md + add_data_to_be_fill md len \<ge> HEADSET_CONTROL_MIC_DATA_BUFFER_LEN
                  then index_end md + add_data_to_be_fill md len - HEADSET_CONTROL_MIC_DATA_BUFFER_LEN
                  else index_end md + add_data_to_be_fill md len) = (unat (index_end md) + a) mod 1024"
    using wrap_end [of "index_end md" "add_data_to_be_fill md len"] w a f by simp
  have c: "(if HEADSET_CONTROL_MIC_DATA_BUFFER_LEN - index_end md \<ge> add_data_to_be_fill md len
                then memcpy (buffer md) (unat (index_end md)) p_data 0 (unat (add_data_to_be_fill md len))
                else do {
                  b1 \<leftarrow> memcpy (buffer md) (unat (index_end md)) p_data 0
                          (unat (HEADSET_CONTROL_MIC_DATA_BUFFER_LEN - index_end md));
                  memcpy b1 0 p_data (unat (HEADSET_CONTROL_MIC_DATA_BUFFER_LEN - index_end md))
                    (unat (add_data_to_be_fill md len - (HEADSET_CONTROL_MIC_DATA_BUFFER_LEN - index_end md)))
                }) = Some b"
    using add_copy_eq [OF wf nf, of len p_data] b(1) by (simp add: a_def)
  show ?thesis
    unfolding a_def [symmetric]
    using nf b dl ie
    by (simp add: headset_control_mic_data_add_def Let_def c split: if_splits)
qed

lemma ring_load_ok:
  assumes "length buf = 1024" "s < 1024" "r \<le> 1024" "r \<le> length p"
  shows "\<exists>q. ring_load p buf s r = Some q \<and> length q = length p \<and>
     (\<forall>i<length p. q ! i = (if i < r then buf ! ((s + i) mod 1024) else p ! i))"
proof (cases "r \<le> 1024 - s")
  case True
  have "0 + r \<le> length p" "s + r \<le> length buf" using assms True by simp_all
  then obtain q where q: "memcpy p 0 buf s r = Some q"
    using memcpy_Some by blast
  have "length q = length p" using memcpy_len [OF q] by simp
  moreover have "\<forall>i<length p. q ! i = (if i < r then buf ! ((s + i) mod 1024) else p ! i)"
    using assms True by (auto simp: memcpy_nth [OF q] mod_wrap)
  ultimately show ?thesis using True q by (simp add: ring_load_def)
next
  case False
  have "0 + (1024 - s) \<le> length p" "s + (1024 - s) \<le> length buf" using assms False by simp_all
  then obtain q1 where q1: "memcpy p 0 buf s (1024 - s) = Some q1"
    using memcpy_Some by blast
  have l1: "length q1 = length p" using memcpy_len [OF q1] by simp
  have "(1024 - s) + (r - (1024 - s)) \<le> length q1" "0 + (r - (1024 - s)) \<le> length buf"
    using False assms l1 by simp_all
  then obtain q where q: "memcpy q1 (1024 - s) buf 0 (r - (1024 - s)) = Some q"
    using memcpy_Some by blast
  have "length q = length p" using memcpy_len [OF q] l1 by simp
  moreover have "\<forall>i<length p. q ! i = (if i < r then buf ! ((s + i) mod 1024) else p ! i)"
    using assms False l1 by (auto simp: memcpy_nth [OF q] memcpy_nth [OF q1] mod_wrap add.commute)
  ultimately show ?thesis using False q q1 by (simp add: ring_load_def)
qed

lemma callback_copy_eq:
  assumes "mic_data_wf md"
  shows "(if HEADSET_CONTROL_MIC_DATA_BUFFER_LEN - index_start md \<ge> callback_data_to_be_fill md len
                 then memcpy p_data 0 (buffer md) (unat (index_start md)) (unat (callback_data_to_be_fill md len))
                 else do {
                   q \<leftarrow> memcpy p_data 0 (buffer md) (unat (index_start md))
                         (unat (HEADSET_CONTROL_MIC_DATA_BUFFER_LEN - index_start md));
                   memcpy q (unat (HEADSET_CONTROL_MIC_DATA_BUFFER_LEN - index_start md)) (buffer md) 0
                     (unat (callback_data_to_be_fill md len - (HEADSET_CONTROL_MIC_DATA_BUFFER_LEN - index_start md)))
                 })
    = ring_load p_data (buffer md) (unat (index_start md)) (min (unat len) (unat (data_len md)))"
proof -
  have f: "unat (callback_data_to_be_fill md len) = min (unat len) (unat (data_len md))"
    by (rule cb_fill)
  have m: "unat (HEADSET_CONTROL_MIC_DATA_BUFFER_LEN - index_start md) = 1024 - unat (index_start md)"
    using assms by (simp add: unat_BL_minus mic_data_wf_def)
  show ?thesis
  proof (cases "HEADSET_CONTROL_MIC_DATA_BUFFER_LEN - index_start md \<ge> callback_data_to_be_fill md len")
    case True
    then show ?thesis using f m by (simp add: ring_load_def word_le_nat_alt)
  next
    case False
    then have "unat (callback_data_to_be_fill md len - (HEADSET_CONTROL_MIC_DATA_BUFFER_LEN - index_start md))
       = unat (callback_data_to_be_fill md len) - unat (HEADSET_CONTROL_MIC_DATA_BUFFER_LEN - index_start md)"
      by (simp add: unat_sub)
    with False show ?thesis using f m by (simp add: ring_load_def word_le_nat_alt)
  qed
qed

lemma callback_step:
  assumes wf: "mic_data_wf md" and ne: "data_len md \<noteq> 0"
    and lp: "unat len \<le> length p_data"
  shows "\<exists>md' out. headset_control_mic_data_add_callback md p_data len = Some (md', out, True) \<and>
     (\<exists>q. ring_load p_data (buffer md) (unat (index_start md))
            (min (unat len) (unat (data_len md))) = Some q \<and>
          memset q (min (unat len) (unat (data_len md))) 0
            (unat len - min (unat len) (unat (data_len md))) = Some out) \<and>
     length out = length p_data \<and>
     (\<forall>i<length p_data. out ! i =
        (if i < min (unat len) (unat (data_len md)) then buffer md ! ((unat (index_start md) + i) mod 1024)
         else if i < unat len then 0 else p_data ! i)) \<and>
     unat (data_len md') = unat (data_len md) - min (unat len) (unat (data_len md)) \<and>
     unat (index_start md') = (unat (index_start md) + min (unat len) (unat (data_len md))) mod 1024 \<and>
     buffer md' = buffer md \<and> index_end md' = index_end md \<and> p_mutex md' = p_mutex md"
proof -
  define r where "r = min (unat len) (unat (data_len md))"
  have f: "unat (callback_data_to_be_fill md len) = r"
    by (simp add: cb_fill r_def)
  have w: "length (buffer md) = 1024" "unat (index_start md) < 1024" "unat (data_len md) \<le> 1024"
    using wf by (simp_all add: mic_data_wf_def)
  have r: "r \<le> 1024" "r \<le> length p_data" "r \<le> unat len" "r \<le> unat (data_len md)"
    using lp w by (simp_all add: r_def)
  obtain q where q: "ring_load p_data (buffer md) (unat (index_start md)) r = Some q"
      "length q = length p_data"
      "\<forall>i<length p_data. q ! i = (if i < r then buffer md ! ((unat (index_start md) + i) mod 1024) else p_data ! i)"
    using ring_load_ok [OF w(1) w(2) r(1) r(2)] by blast
  have c: "(if HEADSET_CONTROL_MIC_DATA_BUFFER_LEN - index_start md \<ge> callback_data_to_be_fill md len
                 then memcpy p_data 0 (buffer md) (unat (index_start md)) (unat (callback_data_to_be_fill md len))
                 else do {
                   q \<leftarrow> memcpy p_data 0 (buffer md) (unat (index_start md))
                         (unat (HEADSET_CONTROL_MIC_DATA_BUFFER_LEN - index_start md));
                   memcpy q (unat (HEADSET_CONTROL_MIC_DATA_BUFFER_LEN - index_start md)) (buffer md) 0
                     (unat (callback_data_to_be_fill md len - (HEADSET_CONTROL_MIC_DATA_BUFFER_LEN - index_start md)))
                 }) = Some q"
    using callback_copy_eq [OF wf, of len p_data] q(1) by (simp add: r_def)
  have fl: "callback_data_to_be_fill md len \<le> len"
    using f r by (simp add: word_le_nat_alt)
  have ul: "unat (len - callback_data_to_be_fill md len) = unat len - r"
    using fl f by (simp add: unat_sub)
  obtain out where out: "(if callback_data_to_be_fill md len < len
                 then memset q (unat (callback_data_to_be_fill md len)) 0 (unat (len - callback_data_to_be_fill md len))
                 else Some q) = Some out" "length out = length p_data"
       "\<forall>i<length p_data. out ! i = (if i < r then q ! i else if i < unat len then 0 else q ! i)"
       "memset q r 0 (unat len - r) = Some out"
  proof (cases "callback_data_to_be_fill md len < len")
    case True
    have "r + (unat len - r) \<le> length q" using r lp q(2) by simp
    then obtain o1 where o1: "memset q r 0 (unat len - r) = Some o1"
      by (auto simp: memset_def)
    have "length o1 = length p_data" using memset_len [OF o1] q(2) by simp
    moreover have "\<forall>i<length p_data. o1 ! i = (if i < r then q ! i else if i < unat len then 0 else q ! i)"
      using r q(2) by (auto simp: memset_nth [OF o1])
    ultimately show ?thesis using that [of o1] True o1 f ul by simp
  next
    case False
    then have "unat len = r" using f fl by (simp add: word_less_nat_alt word_le_nat_alt)
    moreover have "memset q r 0 0 = Some q" using r(2) q(2) by (simp add: memset_def)
    ultimately show ?thesis using that [of q] False q(2) by simp
  qed
  have dl: "unat (data_len md - callback_data_to_be_fill md len) = unat (data_len md) - r"
    using f r by (simp add: unat_sub word_le_nat_alt)
  have ie: "unat (if index_start md + callback_data_to_be_fill md len \<ge> HEADSET_CONTROL_MIC_DATA_BUFFER_LEN
                  then index_start md + callback_data_to_be_fill md len - HEADSET_CONTROL_MIC_DATA_BUFFER_LEN
                  else index_start md + callback_data_to_be_fill md len) = (unat (index_start md) + r) mod 1024"
    using wrap_end [of "index_start md" "callback_data_to_be_fill md len"] w r f by simp
  have o: "\<forall>i<length p_data. out ! i =
        (if i < r then buffer md ! ((unat (index_start md) + i) mod 1024)
         else if i < unat len then 0 else p_data ! i)"
    using out(3) q(3) by simp
  show ?thesis
    unfolding r_def [symmetric]
    using ne out(1,2,4) q(1) o dl ie
    by (simp add: headset_control_mic_data_add_callback_def Let_def c split: if_splits)
qed


subsection \<open>The waiting bytes and the cursor invariant\<close>

lemma ring_contents_length: "mic_data_wf md \<Longrightarrow> length (ring_contents md) = unat (data_len md)"
  by (auto simp: ring_contents_def mic_data_wf_def)

lemma ring_contents_nth:
  "mic_data_wf md \<Longrightarrow> i < unat (data_len md) \<Longrightarrow>
     ring_contents md ! i = buffer md ! ((unat (index_start md) + i) mod 1024)"
  by (auto simp: ring_contents_def mic_data_wf_def nth_append mod_wrap add.commute)

lemma add_contents:
  assumes inv: "mic_data_inv md" and lp: "unat len \<le> length p_data"
  shows "\<exists>md'. headset_control_mic_data_add md p_data len = Some md' \<and> mic_data_inv md' \<and>
           ring_contents md' = ring_contents md @ take (unat (add_data_to_be_fill md len)) p_data"
proof (cases "data_len md = HEADSET_CONTROL_MIC_DATA_BUFFER_LEN")
  case True
  then show ?thesis using inv
    by (simp add: headset_control_mic_data_add_def add_data_to_be_fill_def)
next
  case False
  have wf: "mic_data_wf md" using inv by (simp add: mic_data_inv_def)
  define a where "a = min (unat len) (1024 - unat (data_len md))"
  define s where "s = unat (index_start md)"
  define e where "e = unat (index_end md)"
  define dl where "dl = unat (data_len md)"
  have f: "unat (add_data_to_be_fill md len) = a"
    using wf False by (simp add: add_fill mic_data_wf_def a_def)
  obtain md' where md': "headset_control_mic_data_add md p_data len = Some md'"
     "length (buffer md') = 1024"
     "\<forall>j<1024. buffer md' ! j = (if (j + 1024 - e) mod 1024 < a
         then p_data ! ((j + 1024 - e) mod 1024) else buffer md ! j)"
     "unat (data_len md') = dl + a"
     "unat (index_end md') = (e + a) mod 1024"
     "index_start md' = index_start md"
    using add_step [OF wf False lp] unfolding a_def e_def dl_def by blast
  have b: "s < 1024" "e < 1024" "dl \<le> 1024" "a \<le> 1024 - dl" "a \<le> length p_data" "e = (s + dl) mod 1024"
    using inv lp by (simp_all add: mic_data_inv_def mic_data_wf_def a_def s_def e_def dl_def)
  have wf': "mic_data_wf md'"
    using md' b by (simp add: mic_data_wf_def s_def)
  have inv': "mic_data_inv md'"
    using wf' md'(4,5,6) b by (simp add: mic_data_inv_def s_def [symmetric] mod_simps add.assoc)
  have "ring_contents md' = ring_contents md @ take a p_data"
  proof (rule nth_equalityI)
    show "length (ring_contents md') = length (ring_contents md @ take a p_data)"
      using wf wf' md'(4) b by (simp add: ring_contents_length dl_def)
  next
    fix i assume "i < length (ring_contents md')"
    then have i: "i < dl + a" using wf' md'(4) by (simp add: ring_contents_length)
    have l: "ring_contents md' ! i = buffer md' ! ((s + i) mod 1024)"
      using ring_contents_nth [OF wf', of i] i md'(4,6) by (simp add: s_def)
    have j: "(s + i) mod 1024 < 1024" by simp
    show "ring_contents md' ! i = (ring_contents md @ take a p_data) ! i"
    proof (cases "i < dl")
      case True
      have "\<not> (((s + i) mod 1024) + 1024 - e) mod 1024 < a"
        using True b i by (auto simp: mod_wrap split: if_splits)
      then have "buffer md' ! ((s + i) mod 1024) = buffer md ! ((s + i) mod 1024)"
        using md'(3) [rule_format, OF j] by simp
      then show ?thesis
        using l True wf ring_contents_nth [OF wf, of i]
        by (simp add: nth_append ring_contents_length dl_def s_def)
    next
      case False
      have "(((s + i) mod 1024) + 1024 - e) mod 1024 = i - dl"
        using False b i by (auto simp: mod_wrap split: if_splits)
      moreover have "i - dl < a" using False i by simp
      ultimately have "buffer md' ! ((s + i) mod 1024) = p_data ! (i - dl)"
        using md'(3) [rule_format, OF j] by simp
      then show ?thesis
        using l False wf i b
        by (simp add: nth_append ring_contents_length dl_def [symmetric])
    qed
  qed
  then show ?thesis using md'(1) inv' f by simp
qed

lemma mod_shift: "r \<le> d \<Longrightarrow> ((s + r) mod n + (d - r)) mod n = (s + d) mod n" for r d s n :: nat
proof -
  assume rd: "r \<le> d"
  have "((s + r) mod n + (d - r)) mod n = ((s + r) + (d - r)) mod n"
    by (rule mod_add_left_eq)
  also have "\<dots> = (s + d) mod n" using rd by simp
  finally show ?thesis .
qed

lemma callback_contents:
  assumes inv: "mic_data_inv md" and lp: "unat len \<le> length p_data"
  shows "\<exists>md' out has. headset_control_mic_data_add_callback md p_data len = Some (md', out, has) \<and>
           mic_data_inv md' \<and>
           ring_contents md = take (unat (callback_data_to_be_fill md len)) out @ ring_contents md'"
proof (cases "data_len md = 0")
  case True
  then show ?thesis using inv
    by (auto simp: headset_control_mic_data_add_callback_def callback_data_to_be_fill_def
        ring_contents_def)
next
  case False
  have wf: "mic_data_wf md" using inv by (simp add: mic_data_inv_def)
  define r where "r = min (unat len) (unat (data_len md))"
  define s where "s = unat (index_start md)"
  define e where "e = unat (index_end md)"
  define dl where "dl = unat (data_len md)"
  have f: "unat (callback_data_to_be_fill md len) = r"
    by (simp add: cb_fill r_def)
  obtain md' out where md': "headset_control_mic_data_add_callback md p_data len = Some (md', out, True)"
     "length out = length p_data"
     "\<forall>i<length p_data. out ! i =
        (if i < r then buffer md ! ((s + i) mod 1024)
         else if i < unat len then 0 else p_data ! i)"
     "unat (data_len md') = dl - r"
     "unat (index_start md') = (s + r) mod 1024"
     "buffer md' = buffer md" "index_end md' = index_end md"
    using callback_step [OF wf False lp] unfolding r_def s_def dl_def by blast
  have b: "s < 1024" "e < 1024" "dl \<le> 1024" "r \<le> dl" "r \<le> length p_data" "e = (s + dl) mod 1024"
    "length (buffer md) = 1024"
    using inv lp by (simp_all add: mic_data_inv_def mic_data_wf_def r_def s_def e_def dl_def)
  have wf': "mic_data_wf md'"
    using md' b by (simp add: mic_data_wf_def e_def)
  have "((s + r) mod 1024 + (dl - r)) mod 1024 = (s + dl) mod 1024"
    using b by (simp only: mod_shift)
  then have inv': "mic_data_inv md'"
    using wf' md'(4,5,7) b by (simp add: mic_data_inv_def e_def [symmetric])
  have "ring_contents md = take r out @ ring_contents md'"
  proof (rule nth_equalityI)
    show "length (ring_contents md) = length (take r out @ ring_contents md')"
      using wf wf' md'(2,4) b by (simp add: ring_contents_length dl_def [symmetric])
  next
    fix i assume "i < length (ring_contents md)"
    then have i: "i < dl" using wf by (simp add: ring_contents_length dl_def)
    have l: "ring_contents md ! i = buffer md ! ((s + i) mod 1024)"
      using ring_contents_nth [OF wf, of i] i by (simp add: s_def dl_def)
    show "ring_contents md ! i = (take r out @ ring_contents md') ! i"
    proof (cases "i < r")
      case True
      then have "i < length p_data" using b by simp
      then have "out ! i = buffer md ! ((s + i) mod 1024)"
        using md'(3) True by simp
      then show ?thesis using l True md'(2) b by (simp add: nth_append)
    next
      case False
      then have "i - r < unat (data_len md')" using i md'(4) by simp
      then have "ring_contents md' ! (i - r) = buffer md ! (((s + r) mod 1024 + (i - r)) mod 1024)"
        using ring_contents_nth [OF wf', of "i - r"] md'(5,6) by simp
      moreover have "((s + r) mod 1024 + (i - r)) mod 1024 = (s + i) mod 1024"
        using False by (simp only: mod_shift not_less)
      ultimately show ?thesis using l False md'(2) b by (simp add: nth_append)
    qed
  qed
  then show ?thesis using md'(1) inv' f by auto
qed

lemma mic_step_inv:
  assumes "mic_data_inv md" "accepted = delivered @ ring_contents md" "mic_op_ok x"
  shows "\<exists>md' accepted' delivered'. mic_step (md, accepted, delivered) x = Some (md', accepted', delivered') \<and>
     mic_data_inv md' \<and> accepted' = delivered' @ ring_contents md'"
proof (cases x)
  case (Append p_data len)
  then show ?thesis using assms add_contents [of md len p_data] by auto
next
  case (Consume p_data len)
  then show ?thesis using assms callback_contents [of md len p_data] by auto
qed

lemma mic_run_inv:
  assumes "mic_data_inv md" "accepted = delivered @ ring_contents md" "\<forall>x\<in>set xs. mic_op_ok x"
  shows "\<exists>md' accepted' delivered'. mic_run (md, accepted, delivered) xs = Some (md', accepted', delivered') \<and>
     mic_data_inv md' \<and> accepted' = delivered' @ ring_contents md'"
  using assms
proof (induction xs arbitrary: md accepted delivered)
  case Nil
  then show ?case by simp
next
  case (Cons x xs)
  then obtain md1 a1 d1 where s: "mic_step (md, accepted, delivered) x = Some (md1, a1, d1)"
     "mic_data_inv md1" "a1 = d1 @ ring_contents md1"
    using mic_step_inv [of md accepted delivered x] by auto
  from Cons.IH [OF s(2,3)] Cons.prems(3) s(1) show ?case by simp
qed

lemma init_inv: "mic_data_inv headset_control_mic_data_init"
  by (simp add: mic_data_inv_def mic_data_wf_def headset_control_mic_data_init_def)

lemma reset_inv:
  "length (buffer md) = 1024 \<Longrightarrow>
     \<exists>md'. headset_control_mic_data_reset md = Some md' \<and> mic_data_inv md' \<and>
           ring_contents md' = []"
  by (simp add: headset_control_mic_data_reset_def memset_def mic_data_inv_def mic_data_wf_def
      ring_contents_def)


subsection \<open>The ring operations\<close>

text \<open>
  C3: \<^verbatim>\<open>headset_control_mic_data_add\<close> on a ring in a state the operations keep and a
  chunk of at least \<^verbatim>\<open>len\<close> bytes. On a full ring the call returns the ring as it was. Otherwise,
  with \<open>accepted = min len (1024 - data_len)\<close>, byte \<open>i\<close> of the chunk, for \<open>i < accepted\<close>, is
  stored at index \<open>(index_end + i) mod 1024\<close>, every other index of the array keeps its byte,
  \<^verbatim>\<open>index_end\<close> becomes \<open>(index_end + accepted) mod 1024\<close>, \<^verbatim>\<open>data_len\<close> grows by \<open>accepted\<close>,
  and the read cursor is not touched; the bytes of the chunk from \<open>accepted\<close> on are stored
  nowhere. The new array is the result of \<open>ring_store\<close>, one \<^verbatim>\<open>memcpy\<close> or two, and no
  copy leaves an array.
\<close>

theorem mic_data_add_spec:
  assumes "mic_data_wf md" and "unat len \<le> length p_data"
  shows "(data_len md = HEADSET_CONTROL_MIC_DATA_BUFFER_LEN \<longrightarrow>
            headset_control_mic_data_add md p_data len = Some md) \<and>
         (data_len md \<noteq> HEADSET_CONTROL_MIC_DATA_BUFFER_LEN \<longrightarrow>
            (\<exists>md'. headset_control_mic_data_add md p_data len = Some md' \<and>
               ring_store (buffer md) (unat (index_end md)) p_data
                 (min (unat len) (1024 - unat (data_len md))) = Some (buffer md') \<and>
               length (buffer md') = 1024 \<and>
               (\<forall>i < min (unat len) (1024 - unat (data_len md)).
                  buffer md' ! ((unat (index_end md) + i) mod 1024) = p_data ! i) \<and>
               (\<forall>j < 1024.
                  (\<forall>i < min (unat len) (1024 - unat (data_len md)).
                     j \<noteq> (unat (index_end md) + i) mod 1024) \<longrightarrow>
                  buffer md' ! j = buffer md ! j) \<and>
               unat (index_end md') =
                 (unat (index_end md) + min (unat len) (1024 - unat (data_len md))) mod 1024 \<and>
               unat (data_len md') =
                 unat (data_len md) + min (unat len) (1024 - unat (data_len md)) \<and>
               index_start md' = index_start md \<and> p_mutex md' = p_mutex md))"
proof (intro conjI impI)
  assume "data_len md = HEADSET_CONTROL_MIC_DATA_BUFFER_LEN"
  then show "headset_control_mic_data_add md p_data len = Some md"
    by (simp add: headset_control_mic_data_add_def)
next
  assume nf: "data_len md \<noteq> HEADSET_CONTROL_MIC_DATA_BUFFER_LEN"
  define a where "a = min (unat len) (1024 - unat (data_len md))"
  define e where "e = unat (index_end md)"
  have e: "e < 1024" using assms(1) by (simp add: mic_data_wf_def e_def)
  have a: "a \<le> 1024" by (simp add: a_def)
  obtain md' where md': "headset_control_mic_data_add md p_data len = Some md'"
     "length (buffer md') = 1024"
     "\<forall>j<1024. buffer md' ! j = (if (j + 1024 - e) mod 1024 < a
         then p_data ! ((j + 1024 - e) mod 1024) else buffer md ! j)"
     "unat (data_len md') = unat (data_len md) + a"
     "unat (index_end md') = (e + a) mod 1024"
     "index_start md' = index_start md" "p_mutex md' = p_mutex md"
     "ring_store (buffer md) e p_data a = Some (buffer md')"
    using add_step [OF assms(1) nf assms(2)] unfolding a_def e_def by blast
  have w: "\<forall>i<a. buffer md' ! ((e + i) mod 1024) = p_data ! i"
  proof (intro allI impI)
    fix i assume i: "i < a"
    have j: "(e + i) mod 1024 < 1024" by simp
    have "((e + i) mod 1024 + 1024 - e) mod 1024 = i"
      using i a e by (auto simp: mod_wrap split: if_splits)
    then show "buffer md' ! ((e + i) mod 1024) = p_data ! i"
      using md'(3) [rule_format, OF j] i by simp
  qed
  have u: "\<forall>j<1024. (\<forall>i<a. j \<noteq> (e + i) mod 1024) \<longrightarrow> buffer md' ! j = buffer md ! j"
  proof (intro allI impI)
    fix j assume j: "j < (1024::nat)" and n: "\<forall>i<a. j \<noteq> (e + i) mod 1024"
    have "(e + (j + 1024 - e) mod 1024) mod 1024 = j"
      using j e by (auto simp: mod_wrap split: if_splits)
    with n have "\<not> (j + 1024 - e) mod 1024 < a" by metis
    then show "buffer md' ! j = buffer md ! j"
      using md'(3) [rule_format, OF j] by simp
  qed
  show "\<exists>md'. headset_control_mic_data_add md p_data len = Some md' \<and>
               ring_store (buffer md) (unat (index_end md)) p_data
                 (min (unat len) (1024 - unat (data_len md))) = Some (buffer md') \<and>
               length (buffer md') = 1024 \<and>
               (\<forall>i < min (unat len) (1024 - unat (data_len md)).
                  buffer md' ! ((unat (index_end md) + i) mod 1024) = p_data ! i) \<and>
               (\<forall>j < 1024.
                  (\<forall>i < min (unat len) (1024 - unat (data_len md)).
                     j \<noteq> (unat (index_end md) + i) mod 1024) \<longrightarrow>
                  buffer md' ! j = buffer md ! j) \<and>
               unat (index_end md') =
                 (unat (index_end md) + min (unat len) (1024 - unat (data_len md))) mod 1024 \<and>
               unat (data_len md') =
                 unat (data_len md) + min (unat len) (1024 - unat (data_len md)) \<and>
               index_start md' = index_start md \<and> p_mutex md' = p_mutex md"
    unfolding a_def [symmetric] e_def [symmetric]
    using md'(1,2,4,5,6,7,8) w u by blast
qed

theorem mic_data_add_spec_witness:
  "mic_data_wf example_wrapped_ring \<and> unat (4 :: uint16_t) \<le> length [1, 2, 3, 4 :: uint8_t] \<and>
   data_len example_wrapped_ring \<noteq> HEADSET_CONTROL_MIC_DATA_BUFFER_LEN \<and>
   (\<exists>md'. headset_control_mic_data_add example_wrapped_ring [1, 2, 3, 4] 4 = Some md' \<and>
      buffer md' ! 1022 = 1 \<and> buffer md' ! 1023 = 2 \<and> buffer md' ! 0 = 3 \<and> buffer md' ! 1 = 4 \<and>
      buffer md' ! 2 = 0 \<and>
      unat (index_end md') = 2 \<and> unat (data_len md') = 4 \<and> index_start md' = 1022)"
proof -
  have h1: "mic_data_wf example_wrapped_ring"
    by (simp add: mic_data_wf_def example_wrapped_ring_def)
  have h2: "unat (4 :: uint16_t) \<le> length [1, 2, 3, 4 :: uint8_t]" by simp
  have h3: "data_len example_wrapped_ring \<noteq> HEADSET_CONTROL_MIC_DATA_BUFFER_LEN"
    by (simp add: example_wrapped_ring_def HEADSET_CONTROL_MIC_DATA_BUFFER_LEN_def)
  from mic_data_add_spec [OF h1 h2] h3
  obtain md' where m: "headset_control_mic_data_add example_wrapped_ring [1, 2, 3, 4] 4 = Some md'"
    "\<forall>i < 4. buffer md' ! ((1022 + i) mod 1024) = [1, 2, 3, 4] ! i"
    "\<forall>j < 1024. (\<forall>i < 4. j \<noteq> (1022 + i) mod 1024) \<longrightarrow> buffer md' ! j = replicate 1024 0 ! j"
    "unat (index_end md') = 2" "unat (data_len md') = 4" "index_start md' = 1022"
    by (auto simp: example_wrapped_ring_def)
  have b: "buffer md' ! 1022 = 1" "buffer md' ! 1023 = 2" "buffer md' ! 0 = 3" "buffer md' ! 1 = 4"
    using m(2) [rule_format, of 0] m(2) [rule_format, of 1] m(2) [rule_format, of 2]
      m(2) [rule_format, of 3]
    by simp_all
  have "\<forall>i < 4. (2::nat) \<noteq> (1022 + i) mod 1024"
    by (auto simp: mod_wrap)
  then have "buffer md' ! 2 = replicate 1024 0 ! 2"
    using m(3) [rule_format, of 2] by simp
  then have "buffer md' ! 2 = 0" by simp
  with h1 h2 h3 m b show ?thesis by simp
qed

text \<open>
  C4: \<^verbatim>\<open>headset_control_mic_data_add_callback\<close> on a ring that is not empty and an output
  buffer of at least \<^verbatim>\<open>len\<close> bytes returns \<^verbatim>\<open>WICED_TRUE\<close>. With \<open>real = min data_len len\<close>,
  output byte \<open>i\<close>, for \<open>i < real\<close>, is the ring's byte at index \<open>(index_start + i) mod 1024\<close>,
  the output bytes from \<open>real\<close> up to \<^verbatim>\<open>len\<close> are zero, the bytes behind \<^verbatim>\<open>len\<close> are not
  written, \<^verbatim>\<open>index_start\<close> becomes \<open>(index_start + real) mod 1024\<close>, \<^verbatim>\<open>data_len\<close> shrinks by
  \<open>real\<close>, and the array and the write cursor are not touched. The output is the result of
  \<open>ring_load\<close>, one \<^verbatim>\<open>memcpy\<close> or two, followed by the zero fill.
\<close>

theorem mic_data_add_callback_spec:
  assumes "mic_data_wf md" and "data_len md \<noteq> 0" and "unat len \<le> length p_data"
  shows "\<exists>md' out.
     headset_control_mic_data_add_callback md p_data len = Some (md', out, True) \<and>
     (\<exists>q. ring_load p_data (buffer md) (unat (index_start md))
            (min (unat (data_len md)) (unat len)) = Some q \<and>
          memset q (min (unat (data_len md)) (unat len)) 0
            (unat len - min (unat (data_len md)) (unat len)) = Some out) \<and>
     length out = length p_data \<and>
     (\<forall>i < min (unat (data_len md)) (unat len).
        out ! i = buffer md ! ((unat (index_start md) + i) mod 1024)) \<and>
     (\<forall>i. min (unat (data_len md)) (unat len) \<le> i \<and> i < unat len \<longrightarrow> out ! i = 0) \<and>
     (\<forall>i. unat len \<le> i \<and> i < length p_data \<longrightarrow> out ! i = p_data ! i) \<and>
     unat (index_start md') =
       (unat (index_start md) + min (unat (data_len md)) (unat len)) mod 1024 \<and>
     unat (data_len md') = unat (data_len md) - min (unat (data_len md)) (unat len) \<and>
     buffer md' = buffer md \<and> index_end md' = index_end md \<and> p_mutex md' = p_mutex md"
proof -
  define r where "r = min (unat (data_len md)) (unat len)"
  have r: "r = min (unat len) (unat (data_len md))" by (simp add: r_def min.commute)
  obtain md' out where c:
     "headset_control_mic_data_add_callback md p_data len = Some (md', out, True)"
     "length out = length p_data"
     "\<forall>i<length p_data. out ! i =
        (if i < r then buffer md ! ((unat (index_start md) + i) mod 1024)
         else if i < unat len then 0 else p_data ! i)"
     "unat (data_len md') = unat (data_len md) - r"
     "unat (index_start md') = (unat (index_start md) + r) mod 1024"
     "buffer md' = buffer md" "index_end md' = index_end md" "p_mutex md' = p_mutex md"
     "\<exists>q. ring_load p_data (buffer md) (unat (index_start md)) r = Some q \<and>
          memset q r 0 (unat len - r) = Some out"
    using callback_step [OF assms] unfolding r [symmetric] by blast
  have rl: "r \<le> unat len" by (simp add: r_def)
  have d: "\<forall>i<r. out ! i = buffer md ! ((unat (index_start md) + i) mod 1024)"
    using c(3) rl assms(3) by simp
  have z: "\<forall>i. r \<le> i \<and> i < unat len \<longrightarrow> out ! i = 0"
    using c(3) assms(3) by simp
  have k: "\<forall>i. unat len \<le> i \<and> i < length p_data \<longrightarrow> out ! i = p_data ! i"
    using c(3) rl by simp
  show ?thesis
    unfolding r_def [symmetric]
    using c(1,2,4,5,6,7,8,9) d z k by blast
qed

theorem mic_data_add_callback_spec_witness:
  "mic_data_wf example_stored_ring \<and> data_len example_stored_ring \<noteq> 0 \<and>
   unat (4 :: uint32_t) \<le> length [9, 9, 9, 9, 9 :: uint8_t] \<and>
   (\<exists>md' out.
      headset_control_mic_data_add_callback example_stored_ring [9, 9, 9, 9, 9] 4 =
        Some (md', out, True) \<and>
      out = [1, 2, 3, 0, 9] \<and>
      unat (index_start md') = 1 \<and> unat (data_len md') = 0 \<and>
      buffer md' = buffer example_stored_ring \<and> index_end md' = 1)"
proof -
  have h1: "mic_data_wf example_stored_ring"
    by (simp add: mic_data_wf_def example_stored_ring_def)
  have h2: "data_len example_stored_ring \<noteq> 0"
    by (simp add: example_stored_ring_def)
  have h3: "unat (4 :: uint32_t) \<le> length [9, 9, 9, 9, 9 :: uint8_t]" by simp
  from mic_data_add_callback_spec [OF h1 h2 h3]
  obtain md' out where m:
    "headset_control_mic_data_add_callback example_stored_ring [9, 9, 9, 9, 9] 4 = Some (md', out, True)"
    "length out = 5"
    "\<forall>i < 3. out ! i = ([3] @ replicate 1021 0 @ [1, 2]) ! ((1022 + i) mod 1024)"
    "\<forall>i. 3 \<le> i \<and> i < 4 \<longrightarrow> out ! i = 0"
    "\<forall>i. 4 \<le> i \<and> i < 5 \<longrightarrow> out ! i = [9, 9, 9, 9, 9] ! i"
    "unat (index_start md') = 1" "unat (data_len md') = 0"
    "buffer md' = buffer example_stored_ring" "index_end md' = 1"
    by (auto simp: example_stored_ring_def)
  have o: "out ! 0 = 1" "out ! 1 = 2" "out ! 2 = 3" "out ! 3 = 0" "out ! 4 = 9"
    using m(3) [rule_format, of 0] m(3) [rule_format, of 1] m(3) [rule_format, of 2]
      m(4) [rule_format, of 3] m(5) [rule_format, of 4]
    by (simp_all add: nth_append)
  have "out = [1, 2, 3, 0, 9]"
  proof (rule nth_equalityI)
    show "length out = length [1, 2, 3, 0, 9 :: uint8_t]" using m(2) by simp
  next
    fix i assume "i < length out"
    then have "i = 0 \<or> i = 1 \<or> i = 2 \<or> i = 3 \<or> i = 4" using m(2) by auto
    then show "out ! i = [1, 2, 3, 0, 9] ! i" using o by auto
  qed
  with h1 h2 h3 m show ?thesis by simp
qed

text \<open>
  C1, as the code has it: \<^verbatim>\<open>headset_control_mic_data_add_callback\<close> on an empty ring
  returns \<^verbatim>\<open>WICED_FALSE\<close> and leaves the caller's buffer as it was; it does not fill it with
  zeros.
\<close>

theorem mic_data_add_callback_empty:
  "data_len md = 0 \<Longrightarrow>
     headset_control_mic_data_add_callback md p_data len = Some (md, p_data, False)"
  by (simp add: headset_control_mic_data_add_callback_def)

theorem mic_data_add_callback_empty_witness:
  "data_len headset_control_mic_data_init = 0 \<and>
   headset_control_mic_data_add_callback headset_control_mic_data_init [7, 7] 2 =
     Some (headset_control_mic_data_init, [7, 7], False)"
  using mic_data_add_callback_empty [of headset_control_mic_data_init "[7, 7]" 2]
  by (simp add: headset_control_mic_data_init_def)

theorem mic_data_add_callback_empty_not_zeroed:
  "data_len headset_control_mic_data_init = 0 \<and>
   headset_control_mic_data_add_callback headset_control_mic_data_init [7, 7] 2 =
     Some (headset_control_mic_data_init, [7, 7], False) \<and>
   [7, 7] \<noteq> replicate 2 (0 :: uint8_t)"
proof -
  have r: "replicate 2 (0 :: uint8_t) = [0, 0]" by (simp add: numeral_2_eq_2)
  show ?thesis
    by (simp add: r headset_control_mic_data_add_callback_def headset_control_mic_data_init_def)
qed

text \<open>
  C10: a call of \<^verbatim>\<open>headset_control_mic_data_add_callback\<close> that returns \<^verbatim>\<open>WICED_FALSE\<close>
  found the ring empty, left the whole ring (length, both cursors, the array) as it was and
  wrote no byte of the caller's buffer.
\<close>

theorem mic_data_add_callback_no_data:
  "headset_control_mic_data_add_callback md p_data len = Some (md', out, False) \<Longrightarrow>
     md' = md \<and> out = p_data \<and> data_len md = 0"
  by (auto simp: headset_control_mic_data_add_callback_def Let_def split: if_splits bind_splits)

theorem mic_data_add_callback_no_data_witness:
  "headset_control_mic_data_add_callback headset_control_mic_data_init [5, 6, 7] 3 =
     Some (headset_control_mic_data_init, [5, 6, 7], False) \<and>
   data_len headset_control_mic_data_init = 0"
  using mic_data_add_callback_no_data
    [of headset_control_mic_data_init "[5, 6, 7]" 3 headset_control_mic_data_init "[5, 6, 7]"]
  by (simp add: headset_control_mic_data_add_callback_def headset_control_mic_data_init_def)

text \<open>
  C2: from the initial ring, after any sequence of well-formed calls of the two operations,
  the bytes delivered so far are a prefix of the bytes accepted so far; the accepted bytes
  not yet delivered are exactly the bytes waiting in the ring, in order.
\<close>

theorem mic_fifo:
  assumes "\<forall>x\<in>set xs. mic_op_ok x"
  shows "\<exists>md accepted delivered.
     mic_run (headset_control_mic_data_init, [], []) xs = Some (md, accepted, delivered) \<and>
     prefix delivered accepted \<and> accepted = delivered @ ring_contents md"
  using mic_run_inv [OF init_inv _ assms, of "[]" "[]"]
  by (auto simp: ring_contents_def headset_control_mic_data_init_def)

lemma mic_run_example:
  "map_option snd
     (mic_run (headset_control_mic_data_init, [], [])
        [Append [1, 2, 3] 3, Consume [9, 9] 2, Append [4, 5] 2, Consume [9, 9, 9] 2]) =
   Some ([1, 2, 3, 4, 5], [1, 2, 3, 4])"
  by code_simp

theorem mic_fifo_witness:
  "mic_op_ok (Append [1, 2, 3] 3) \<and> mic_op_ok (Consume [9, 9] 2) \<and>
   mic_op_ok (Append [4, 5] 2) \<and> mic_op_ok (Consume [9, 9, 9] 2) \<and>
   (\<exists>md. mic_run (headset_control_mic_data_init, [], [])
            [Append [1, 2, 3] 3, Consume [9, 9] 2, Append [4, 5] 2, Consume [9, 9, 9] 2] =
          Some (md, [1, 2, 3, 4, 5], [1, 2, 3, 4]) \<and>
        ring_contents md = [5]) \<and>
   prefix [1, 2, 3, 4] [1, 2, 3, 4, 5 :: uint8_t]"
proof -
  obtain md accepted delivered where r:
    "mic_run (headset_control_mic_data_init, [], [])
       [Append [1, 2, 3] 3, Consume [9, 9] 2, Append [4, 5] 2, Consume [9, 9, 9] 2] =
     Some (md, accepted, delivered)"
    "prefix delivered accepted" "accepted = delivered @ ring_contents md"
    using mic_fifo [of "[Append [1, 2, 3] 3, Consume [9, 9] 2, Append [4, 5] 2, Consume [9, 9, 9] 2]"]
    by auto
  have v: "accepted = [1, 2, 3, 4, 5]" "delivered = [1, 2, 3, 4]"
    using mic_run_example r(1) by simp_all
  then have "ring_contents md = [5]" using r(3) by simp
  with r v show ?thesis by simp
qed

subsection \<open>The local identity resolving key\<close>

lemma memcmp_bytes_eq: "length xs = length ys \<Longrightarrow> memcmp_bytes xs ys = 0 \<longleftrightarrow> xs = ys"
proof (induction xs ys rule: list_induct2)
  case Nil
  then show ?case by simp
next
  case (Cons x xs y ys)
  have "x \<noteq> y \<Longrightarrow> int (unat x) \<noteq> int (unat y)" by (simp add: word_uint_eq_iff)
  with Cons show ?case by auto
qed

lemma memcmp_eq:
  "n \<le> length a \<Longrightarrow> n \<le> length b \<Longrightarrow>
     \<exists>c. memcmp a b n = Some c \<and> (c = 0 \<longleftrightarrow> take n a = take n b)"
  by (simp add: memcmp_def memcmp_bytes_eq)

lemma local_irk_restore_result:
  "result (fst (headset_control_local_irk_restore env info)) = nvram_read_result env"
  by (simp add: headset_control_local_irk_restore_def Let_def)

lemma local_irk_update_result:
  "headset_control_local_irk_update env info p_key = Some (info', calls) \<Longrightarrow>
     result info' = WICED_BT_SUCCESS \<or> info' = info"
  by (auto simp: headset_control_local_irk_update_def Let_def split: bind_splits if_splits)

text \<open>
  C5: \<^verbatim>\<open>headset_control_local_irk_update\<close> with a key that equals the cached one on the
  compared bytes writes nothing and leaves the cache and its status as they were. With a key
  that differs it issues exactly one write of the key; when the write stores all the bytes
  and reports success the cache holds the new key and the status is success, and otherwise
  the cache and the status are as they were.
\<close>

theorem local_irk_update_spec:
  assumes "BTM_SECURITY_LOCAL_KEY_DATA_LEN env \<le> length p_key"
    and "BTM_SECURITY_LOCAL_KEY_DATA_LEN env \<le> length (local_irk info)"
  shows
    "(take (BTM_SECURITY_LOCAL_KEY_DATA_LEN env) p_key =
        take (BTM_SECURITY_LOCAL_KEY_DATA_LEN env) (local_irk info) \<longrightarrow>
      headset_control_local_irk_update env info p_key = Some (info, [])) \<and>
     (take (BTM_SECURITY_LOCAL_KEY_DATA_LEN env) p_key \<noteq>
        take (BTM_SECURITY_LOCAL_KEY_DATA_LEN env) (local_irk info) \<longrightarrow>
      (\<exists>info'. headset_control_local_irk_update env info p_key =
          Some (info', [wiced_hal_write_nvram HEADSET_NVRAM_ID_LOCAL_IRK
                          (BTM_SECURITY_LOCAL_KEY_DATA_LEN env)
                          (take (BTM_SECURITY_LOCAL_KEY_DATA_LEN env) p_key)]) \<and>
        (if unat (nvram_write_nb_bytes env) = BTM_SECURITY_LOCAL_KEY_DATA_LEN env \<and>
            nvram_write_result env = WICED_BT_SUCCESS
         then take (BTM_SECURITY_LOCAL_KEY_DATA_LEN env) (local_irk info') =
                take (BTM_SECURITY_LOCAL_KEY_DATA_LEN env) p_key \<and>
              drop (BTM_SECURITY_LOCAL_KEY_DATA_LEN env) (local_irk info') =
                drop (BTM_SECURITY_LOCAL_KEY_DATA_LEN env) (local_irk info) \<and>
              result info' = WICED_BT_SUCCESS
         else info' = info)))"
proof -
  obtain c where c: "memcmp p_key (local_irk info) (BTM_SECURITY_LOCAL_KEY_DATA_LEN env) = Some c"
    "c = 0 \<longleftrightarrow> take (BTM_SECURITY_LOCAL_KEY_DATA_LEN env) p_key =
        take (BTM_SECURITY_LOCAL_KEY_DATA_LEN env) (local_irk info)"
    using memcmp_eq [OF assms] by blast
  show ?thesis
    using c assms
    by (auto simp: headset_control_local_irk_update_def Let_def memcpy_def)
qed

theorem local_irk_update_spec_witness:
  "BTM_SECURITY_LOCAL_KEY_DATA_LEN example_env \<le> length example_key \<and>
   BTM_SECURITY_LOCAL_KEY_DATA_LEN example_env \<le> length (local_irk (local_irk_info example_state)) \<and>
   take (BTM_SECURITY_LOCAL_KEY_DATA_LEN example_env) example_key \<noteq>
     take (BTM_SECURITY_LOCAL_KEY_DATA_LEN example_env) (local_irk (local_irk_info example_state)) \<and>
   (\<exists>info'. headset_control_local_irk_update example_env (local_irk_info example_state) example_key =
       Some (info', [wiced_hal_write_nvram HEADSET_NVRAM_ID_LOCAL_IRK 16 example_key]) \<and>
     local_irk info' = example_key \<and> result info' = WICED_BT_SUCCESS)"
proof -
  have h1: "BTM_SECURITY_LOCAL_KEY_DATA_LEN example_env \<le> length example_key"
    by (simp add: example_env_def example_key_def)
  have h2: "BTM_SECURITY_LOCAL_KEY_DATA_LEN example_env \<le>
              length (local_irk (local_irk_info example_state))"
    by (simp add: example_env_def example_state_def)
  have h3: "take (BTM_SECURITY_LOCAL_KEY_DATA_LEN example_env) example_key \<noteq>
     take (BTM_SECURITY_LOCAL_KEY_DATA_LEN example_env) (local_irk (local_irk_info example_state))"
    by code_simp
  from local_irk_update_spec [OF h1 h2] h3
  obtain info' where u:
    "headset_control_local_irk_update example_env (local_irk_info example_state) example_key =
       Some (info', [wiced_hal_write_nvram HEADSET_NVRAM_ID_LOCAL_IRK 16 example_key])"
    "take 16 (local_irk info') = example_key" "drop 16 (local_irk info') = []"
    "result info' = WICED_BT_SUCCESS"
    by (auto simp: example_env_def example_state_def example_key_def)
  have "local_irk info' = take 16 (local_irk info') @ drop 16 (local_irk info')" by simp
  then have "local_irk info' = example_key" using u(2,3) by simp
  with h1 h2 h3 u show ?thesis by simp
qed

text \<open>
  The answer to \<^verbatim>\<open>BTM_LOCAL_IDENTITY_KEYS_REQUEST_EVT\<close> follows \<^verbatim>\<open>local_irk_info.result\<close>:
  on success the cached key is copied to the event data and the callback returns success,
  otherwise it returns \<^verbatim>\<open>WICED_BT_NO_RESOURCES\<close> and does not write the event data.
\<close>

lemma identity_keys_request_answer:
  assumes "BTM_SECURITY_LOCAL_KEY_DATA_LEN env \<le> length keys"
    and "BTM_SECURITY_LOCAL_KEY_DATA_LEN env \<le> length (local_irk (local_irk_info st))"
  shows
    "(result (local_irk_info st) = WICED_BT_SUCCESS \<longrightarrow>
        btheadset_control_management_callback env st (BTM_LOCAL_IDENTITY_KEYS_REQUEST_EVT keys) =
          Some (WICED_BT_SUCCESS,
                BTM_LOCAL_IDENTITY_KEYS_REQUEST_EVT
                  (take (BTM_SECURITY_LOCAL_KEY_DATA_LEN env) (local_irk (local_irk_info st)) @
                   drop (BTM_SECURITY_LOCAL_KEY_DATA_LEN env) keys),
                st, [])) \<and>
     (result (local_irk_info st) \<noteq> WICED_BT_SUCCESS \<longrightarrow>
        btheadset_control_management_callback env st (BTM_LOCAL_IDENTITY_KEYS_REQUEST_EVT keys) =
          Some (WICED_BT_NO_RESOURCES, BTM_LOCAL_IDENTITY_KEYS_REQUEST_EVT keys, st, []))"
  using assms by (simp add: memcpy_def)

text \<open>
  Along a trace of start commands and events, \<^verbatim>\<open>local_irk_info.result\<close> is the status most
  recently recorded, and the start value when no step recorded one; steps that record
  nothing leave the whole cache as it was.
\<close>

lemma update_recorded:
  assumes "headset_control_local_irk_update env info p_key = Some (info', calls)"
  shows "(take (BTM_SECURITY_LOCAL_KEY_DATA_LEN env) p_key \<noteq>
           take (BTM_SECURITY_LOCAL_KEY_DATA_LEN env) (local_irk info) \<and>
         unat (nvram_write_nb_bytes env) = BTM_SECURITY_LOCAL_KEY_DATA_LEN env \<and>
         nvram_write_result env = WICED_BT_SUCCESS \<longrightarrow> result info' = WICED_BT_SUCCESS) \<and>
        (\<not> (take (BTM_SECURITY_LOCAL_KEY_DATA_LEN env) p_key \<noteq>
           take (BTM_SECURITY_LOCAL_KEY_DATA_LEN env) (local_irk info) \<and>
         unat (nvram_write_nb_bytes env) = BTM_SECURITY_LOCAL_KEY_DATA_LEN env \<and>
         nvram_write_result env = WICED_BT_SUCCESS) \<longrightarrow> info' = info)"
proof -
  from assms obtain c where
    c: "memcmp p_key (local_irk info) (BTM_SECURITY_LOCAL_KEY_DATA_LEN env) = Some c"
    by (auto simp: headset_control_local_irk_update_def split: bind_splits)
  then have l: "BTM_SECURITY_LOCAL_KEY_DATA_LEN env \<le> length p_key"
    "BTM_SECURITY_LOCAL_KEY_DATA_LEN env \<le> length (local_irk info)"
    by (auto simp: memcmp_def split: if_splits)
  from memcmp_eq [OF l] c have
    "c = 0 \<longleftrightarrow> take (BTM_SECURITY_LOCAL_KEY_DATA_LEN env) p_key =
        take (BTM_SECURITY_LOCAL_KEY_DATA_LEN env) (local_irk info)"
    by simp
  with assms c show ?thesis
    by (auto simp: headset_control_local_irk_update_def Let_def split: bind_splits if_splits)
qed

lemma app_step_result:
  assumes "app_step st x = Some (st', a)"
  shows "result (local_irk_info st') =
           (case recorded_by st x of Some r \<Rightarrow> r | None \<Rightarrow> result (local_irk_info st))"
proof (cases x)
  case (HCI_CONTROL_HCI_AUDIO_COMMAND_BT_START senv env len)
  with assms show ?thesis
    by (auto simp: headset_control_start_def headset_control_local_irk_restore_def Let_def
        split: if_splits prod.splits)
next
  case (MANAGEMENT_EVT env ev)
  show ?thesis
  proof (cases ev)
    case (BTM_LOCAL_IDENTITY_KEYS_UPDATE_EVT keys)
    with assms MANAGEMENT_EVT obtain info' calls where
      u: "headset_control_local_irk_update env (local_irk_info st) keys = Some (info', calls)"
        "st' = st\<lparr>local_irk_info := info'\<rparr>"
      by (auto split: bind_splits)
    from update_recorded [OF u(1)] u(2) MANAGEMENT_EVT BTM_LOCAL_IDENTITY_KEYS_UPDATE_EVT
    show ?thesis by auto
  qed (use assms MANAGEMENT_EVT in
        \<open>auto simp: Let_def sco_case_def split: bind_splits if_splits\<close>)
qed

lemma app_step_unrecorded:
  assumes "app_step st x = Some (st', a)" and "recorded_by st x = None"
  shows "local_irk_info st' = local_irk_info st"
proof (cases x)
  case (HCI_CONTROL_HCI_AUDIO_COMMAND_BT_START senv env len)
  with assms show ?thesis
    by (auto simp: headset_control_start_def Let_def split: if_splits prod.splits)
next
  case (MANAGEMENT_EVT env ev)
  show ?thesis
  proof (cases ev)
    case (BTM_LOCAL_IDENTITY_KEYS_UPDATE_EVT keys)
    with assms MANAGEMENT_EVT obtain info' calls where
      u: "headset_control_local_irk_update env (local_irk_info st) keys = Some (info', calls)"
        "st' = st\<lparr>local_irk_info := info'\<rparr>"
      by (auto split: bind_splits)
    from update_recorded [OF u(1)] u(2) assms(2) MANAGEMENT_EVT BTM_LOCAL_IDENTITY_KEYS_UPDATE_EVT
    show ?thesis by (auto split: if_splits)
  qed (use assms MANAGEMENT_EVT in
        \<open>auto simp: Let_def sco_case_def split: bind_splits if_splits\<close>)
qed

lemma app_run_result:
  "app_run st xs = Some (st', answers) \<Longrightarrow>
     result (local_irk_info st') =
       (case last_recorded st xs of Some r \<Rightarrow> r | None \<Rightarrow> result (local_irk_info st))"
proof (induction xs arbitrary: st answers)
  case Nil
  then show ?case by simp
next
  case (Cons x xs)
  then obtain st1 a rest where s: "app_step st x = Some (st1, a)"
    "app_run st1 xs = Some (st', rest)"
    by (auto split: bind_splits)
  from Cons.IH [OF s(2)] app_step_result [OF s(1)] s(1)
  show ?case by (auto split: option.splits)
qed

lemma app_run_unrecorded:
  "app_run st xs = Some (st', answers) \<Longrightarrow> last_recorded st xs = None \<Longrightarrow>
     local_irk_info st' = local_irk_info st"
proof (induction xs arbitrary: st answers)
  case Nil
  then show ?case by simp
next
  case (Cons x xs)
  then obtain st1 a rest where s: "app_step st x = Some (st1, a)"
    "app_run st1 xs = Some (st', rest)"
    by (auto split: bind_splits)
  from Cons.prems(2) s(1) have n: "last_recorded st1 xs = None" "recorded_by st x = None"
    by (auto split: option.splits)
  from Cons.IH [OF s(2) n(1)] app_step_unrecorded [OF s(1) n(2)]
  show ?case by simp
qed

text \<open>
  After a trace on which a status was recorded, the request is answered with the cached key
  exactly when the status most recently recorded is success.
\<close>

lemma identity_keys_request_after_recorded:
  assumes "app_run st0 xs = Some (st, answers)" and "last_recorded st0 xs = Some r"
    and "BTM_SECURITY_LOCAL_KEY_DATA_LEN env \<le> length keys"
    and "BTM_SECURITY_LOCAL_KEY_DATA_LEN env \<le> length (local_irk (local_irk_info st))"
  shows
    "(r = WICED_BT_SUCCESS \<longrightarrow>
        btheadset_control_management_callback env st (BTM_LOCAL_IDENTITY_KEYS_REQUEST_EVT keys) =
          Some (WICED_BT_SUCCESS,
                BTM_LOCAL_IDENTITY_KEYS_REQUEST_EVT
                  (take (BTM_SECURITY_LOCAL_KEY_DATA_LEN env) (local_irk (local_irk_info st)) @
                   drop (BTM_SECURITY_LOCAL_KEY_DATA_LEN env) keys),
                st, [])) \<and>
     (r \<noteq> WICED_BT_SUCCESS \<longrightarrow>
        btheadset_control_management_callback env st (BTM_LOCAL_IDENTITY_KEYS_REQUEST_EVT keys) =
          Some (WICED_BT_NO_RESOURCES, BTM_LOCAL_IDENTITY_KEYS_REQUEST_EVT keys, st, []))"
proof -
  have "result (local_irk_info st) = r"
    using app_run_result [OF assms(1)] assms(2) by simp
  then show ?thesis
    using identity_keys_request_answer [OF assms(3,4)] by simp
qed

text \<open>
  C6: the request is not answered by what the restore or an update recorded when neither
  has recorded anything. From the start state, whose \<^verbatim>\<open>result\<close> is the code 0 and so
  \<^verbatim>\<open>WICED_BT_SUCCESS\<close>, after any trace on which no status was recorded, the callback
  answers the request with success and the all-zero key, where the claim has it answer
  \<^verbatim>\<open>WICED_BT_NO_RESOURCES\<close>. A start that returns before the restore, as it does when the
  audio buffers fail to initialise, is such a trace.
\<close>

theorem identity_keys_request_nothing_recorded:
  assumes "app_run (app_state_init n WICED_BT_SUCCESS) xs = Some (st, answers)"
    and "last_recorded (app_state_init n WICED_BT_SUCCESS) xs = None"
    and "BTM_SECURITY_LOCAL_KEY_DATA_LEN env \<le> length keys"
    and "BTM_SECURITY_LOCAL_KEY_DATA_LEN env \<le> n"
  shows
    "btheadset_control_management_callback env st (BTM_LOCAL_IDENTITY_KEYS_REQUEST_EVT keys) =
       Some (WICED_BT_SUCCESS,
             BTM_LOCAL_IDENTITY_KEYS_REQUEST_EVT
               (replicate (BTM_SECURITY_LOCAL_KEY_DATA_LEN env) 0 @
                drop (BTM_SECURITY_LOCAL_KEY_DATA_LEN env) keys),
             st, [])"
proof -
  have i: "local_irk_info st = local_irk_info_init n WICED_BT_SUCCESS"
    using app_run_unrecorded [OF assms(1,2)] by (simp add: app_state_init_def)
  then have l: "BTM_SECURITY_LOCAL_KEY_DATA_LEN env \<le> length (local_irk (local_irk_info st))"
    using assms(4) by (simp add: local_irk_info_init_def)
  have "take (BTM_SECURITY_LOCAL_KEY_DATA_LEN env) (local_irk (local_irk_info st)) =
          replicate (BTM_SECURITY_LOCAL_KEY_DATA_LEN env) 0"
    using i assms(4) by (simp add: local_irk_info_init_def min_def)
  moreover have "result (local_irk_info st) = WICED_BT_SUCCESS"
    using i by (simp add: local_irk_info_init_def)
  ultimately show ?thesis
    using identity_keys_request_answer [OF assms(3) l] by simp
qed

lemma example_start_run:
  "app_run (app_state_init 16 WICED_BT_SUCCESS)
     [HCI_CONTROL_HCI_AUDIO_COMMAND_BT_START example_start_env example_env 0] =
   Some (app_state_init 16 WICED_BT_SUCCESS, [])"
  by (simp add: app_state_init_def example_start_env_def headset_control_start_def)

lemma example_start_records_nothing:
  "last_recorded (app_state_init 16 WICED_BT_SUCCESS)
     [HCI_CONTROL_HCI_AUDIO_COMMAND_BT_START example_start_env example_env 0] = None"
  by (simp add: app_state_init_def example_start_env_def headset_control_start_def)

theorem identity_keys_request_nothing_recorded_witness:
  "app_run (app_state_init 16 WICED_BT_SUCCESS)
     [HCI_CONTROL_HCI_AUDIO_COMMAND_BT_START example_start_env example_env 0] =
     Some (app_state_init 16 WICED_BT_SUCCESS, []) \<and>
   last_recorded (app_state_init 16 WICED_BT_SUCCESS)
     [HCI_CONTROL_HCI_AUDIO_COMMAND_BT_START example_start_env example_env 0] = None \<and>
   BTM_SECURITY_LOCAL_KEY_DATA_LEN example_env \<le> length example_key \<and>
   BTM_SECURITY_LOCAL_KEY_DATA_LEN example_env \<le> 16 \<and>
   btheadset_control_management_callback example_env (app_state_init 16 WICED_BT_SUCCESS)
       (BTM_LOCAL_IDENTITY_KEYS_REQUEST_EVT example_key) =
     Some (WICED_BT_SUCCESS, BTM_LOCAL_IDENTITY_KEYS_REQUEST_EVT (replicate 16 0),
           app_state_init 16 WICED_BT_SUCCESS, [])"
proof -
  have h3: "BTM_SECURITY_LOCAL_KEY_DATA_LEN example_env \<le> length example_key"
    by (simp add: example_env_def example_key_def)
  have h4: "BTM_SECURITY_LOCAL_KEY_DATA_LEN example_env \<le> 16"
    by (simp add: example_env_def)
  from identity_keys_request_nothing_recorded
    [OF example_start_run example_start_records_nothing h3 h4]
  have "btheadset_control_management_callback example_env (app_state_init 16 WICED_BT_SUCCESS)
       (BTM_LOCAL_IDENTITY_KEYS_REQUEST_EVT example_key) =
     Some (WICED_BT_SUCCESS, BTM_LOCAL_IDENTITY_KEYS_REQUEST_EVT (replicate 16 0),
           app_state_init 16 WICED_BT_SUCCESS, [])"
    by (simp add: example_env_def example_key_def)
  with example_start_run example_start_records_nothing h3 h4 show ?thesis by simp
qed

text \<open>
  The same start with the audio buffers initialised reaches the restore; its read fails, and
  the request is answered with \<^verbatim>\<open>WICED_BT_NO_RESOURCES\<close>.
\<close>

lemma identity_keys_request_after_failed_restore:
  "app_run (app_state_init 16 WICED_BT_SUCCESS)
     [HCI_CONTROL_HCI_AUDIO_COMMAND_BT_START
        (example_start_env\<lparr>wiced_audio_buffer_initialize_result := WICED_BT_SUCCESS\<rparr>) example_env 0,
      MANAGEMENT_EVT example_env (BTM_LOCAL_IDENTITY_KEYS_REQUEST_EVT example_key)] =
   Some (app_state_init 16 WICED_BT_ERROR,
         [(WICED_BT_NO_RESOURCES, BTM_LOCAL_IDENTITY_KEYS_REQUEST_EVT example_key)])"
  by (simp add: app_state_init_def local_irk_info_init_def example_start_env_def example_env_def
      headset_control_start_def headset_control_local_irk_restore_def)

subsection \<open>Pairing answers and SCO events\<close>

text \<open>
  C7, as the code has it: on the BR/EDR IO capabilities request the callback answers
  display with yes/no input when fast pair is built in and its provider reports a pairing in
  progress, and no capabilities otherwise, in both cases with single profile general bonding
  and no OOB data. On the LE request it always answers no capabilities, no OOB data, secure
  connections with MITM and bonding, a maximum key size of 16, and the same four key flags
  for the initiator and the responder: the peer's encryption, identity and signing key flags
  and the local encryption flag. The kinds of these flags are Encryption, Identity and
  SigningKey; none is a link key flag.
\<close>

theorem pairing_io_capabilities_spec:
  "btheadset_control_management_callback env st (BTM_PAIRING_IO_CAPABILITIES_BR_EDR_REQUEST_EVT d) =
     Some (WICED_BT_SUCCESS,
           BTM_PAIRING_IO_CAPABILITIES_BR_EDR_REQUEST_EVT
             (d\<lparr>bredr_local_io_cap :=
                   (if FASTPAIR_ENABLE env \<and> wiced_bt_gfps_provider_pairing_state_get env
                    then BTM_IO_CAPABILITIES_DISPLAY_AND_YES_NO_INPUT
                    else BTM_IO_CAPABILITIES_NONE),
                bredr_auth_req := BTM_AUTH_SINGLE_PROFILE_GENERAL_BONDING_NO,
                bredr_oob_data := False\<rparr>),
           st, []) \<and>
   btheadset_control_management_callback env st (BTM_PAIRING_IO_CAPABILITIES_BLE_REQUEST_EVT b) =
     Some (WICED_BT_SUCCESS,
           BTM_PAIRING_IO_CAPABILITIES_BLE_REQUEST_EVT
             (b\<lparr>ble_local_io_cap := BTM_IO_CAPABILITIES_NONE,
                ble_oob_data := BTM_OOB_NONE,
                ble_auth_req := BTM_LE_AUTH_REQ_SC_MITM_BOND,
                ble_max_key_size := 16,
                ble_init_keys := {BTM_LE_KEY_PENC, BTM_LE_KEY_PID, BTM_LE_KEY_PCSRK, BTM_LE_KEY_LENC},
                ble_resp_keys := {BTM_LE_KEY_PENC, BTM_LE_KEY_PID, BTM_LE_KEY_PCSRK, BTM_LE_KEY_LENC}\<rparr>),
           st, []) \<and>
   card {BTM_LE_KEY_PENC, BTM_LE_KEY_PID, BTM_LE_KEY_PCSRK, BTM_LE_KEY_LENC} = 4 \<and>
   le_key_kinds {BTM_LE_KEY_PENC, BTM_LE_KEY_PID, BTM_LE_KEY_PCSRK, BTM_LE_KEY_LENC} =
     {Encryption, Identity, SigningKey}"
  by (auto simp: Let_def insert_commute le_key_kinds_def)

theorem pairing_io_capabilities_spec_witness:
  "btheadset_control_management_callback example_env example_state
     (BTM_PAIRING_IO_CAPABILITIES_BR_EDR_REQUEST_EVT
        \<lparr>bredr_bd_addr = [1, 2, 3, 4, 5, 6], bredr_local_io_cap = BTM_IO_CAPABILITIES_OTHER 0,
         bredr_auth_req = BTM_AUTH_REQ_OTHER 0, bredr_oob_data = True\<rparr>) =
     Some (WICED_BT_SUCCESS,
           BTM_PAIRING_IO_CAPABILITIES_BR_EDR_REQUEST_EVT
             \<lparr>bredr_bd_addr = [1, 2, 3, 4, 5, 6],
              bredr_local_io_cap = BTM_IO_CAPABILITIES_DISPLAY_AND_YES_NO_INPUT,
              bredr_auth_req = BTM_AUTH_SINGLE_PROFILE_GENERAL_BONDING_NO, bredr_oob_data = False\<rparr>,
           example_state, []) \<and>
   btheadset_control_management_callback (example_env\<lparr>FASTPAIR_ENABLE := False\<rparr>) example_state
     (BTM_PAIRING_IO_CAPABILITIES_BR_EDR_REQUEST_EVT
        \<lparr>bredr_bd_addr = [1, 2, 3, 4, 5, 6], bredr_local_io_cap = BTM_IO_CAPABILITIES_OTHER 0,
         bredr_auth_req = BTM_AUTH_REQ_OTHER 0, bredr_oob_data = True\<rparr>) =
     Some (WICED_BT_SUCCESS,
           BTM_PAIRING_IO_CAPABILITIES_BR_EDR_REQUEST_EVT
             \<lparr>bredr_bd_addr = [1, 2, 3, 4, 5, 6],
              bredr_local_io_cap = BTM_IO_CAPABILITIES_NONE,
              bredr_auth_req = BTM_AUTH_SINGLE_PROFILE_GENERAL_BONDING_NO, bredr_oob_data = False\<rparr>,
           example_state, [])"
  using pairing_io_capabilities_spec [of example_env example_state
      "\<lparr>bredr_bd_addr = [1, 2, 3, 4, 5, 6], bredr_local_io_cap = BTM_IO_CAPABILITIES_OTHER 0,
         bredr_auth_req = BTM_AUTH_REQ_OTHER 0, bredr_oob_data = True\<rparr>"]
    pairing_io_capabilities_spec [of "example_env\<lparr>FASTPAIR_ENABLE := False\<rparr>" example_state
      "\<lparr>bredr_bd_addr = [1, 2, 3, 4, 5, 6], bredr_local_io_cap = BTM_IO_CAPABILITIES_OTHER 0,
         bredr_auth_req = BTM_AUTH_REQ_OTHER 0, bredr_oob_data = True\<rparr>"]
  by (simp add: example_env_def)

text \<open>
  The LE answer does not carry the four kinds Encryption, Identity, SigningKey and LinkKey:
  no flag of it is a link key flag.
\<close>

theorem pairing_io_capabilities_no_link_key:
  "btheadset_control_management_callback example_env example_state
     (BTM_PAIRING_IO_CAPABILITIES_BLE_REQUEST_EVT example_ble_request) =
     Some (WICED_BT_SUCCESS,
           BTM_PAIRING_IO_CAPABILITIES_BLE_REQUEST_EVT
             (example_ble_request
                \<lparr>ble_local_io_cap := BTM_IO_CAPABILITIES_NONE,
                 ble_oob_data := BTM_OOB_NONE,
                 ble_auth_req := BTM_LE_AUTH_REQ_SC_MITM_BOND,
                 ble_max_key_size := 16,
                 ble_init_keys := {BTM_LE_KEY_PENC, BTM_LE_KEY_PID, BTM_LE_KEY_PCSRK, BTM_LE_KEY_LENC},
                 ble_resp_keys := {BTM_LE_KEY_PENC, BTM_LE_KEY_PID, BTM_LE_KEY_PCSRK, BTM_LE_KEY_LENC}\<rparr>),
           example_state, []) \<and>
   le_key_kinds {BTM_LE_KEY_PENC, BTM_LE_KEY_PID, BTM_LE_KEY_PCSRK, BTM_LE_KEY_LENC} \<noteq>
     {Encryption, Identity, SigningKey, LinkKey} \<and>
   LinkKey \<notin> le_key_kinds {BTM_LE_KEY_PENC, BTM_LE_KEY_PID, BTM_LE_KEY_PCSRK, BTM_LE_KEY_LENC}"
  by (auto simp: Let_def insert_commute le_key_kinds_def)

text \<open>
  C8: on \<^verbatim>\<open>BTM_SECURITY_REQUEST_EVT\<close> the callback grants security with success when
  \<^verbatim>\<open>pairing_allowed\<close> is set, and only then; when it is not set the callback makes no call and
  returns \<^verbatim>\<open>WICED_BT_ERROR\<close>.
\<close>

theorem security_request_spec:
  "(pairing_allowed env \<longrightarrow>
      btheadset_control_management_callback env st (BTM_SECURITY_REQUEST_EVT bd_addr) =
        Some (WICED_BT_SUCCESS, BTM_SECURITY_REQUEST_EVT bd_addr, st,
              [wiced_bt_ble_security_grant bd_addr WICED_BT_SUCCESS])) \<and>
   (\<not> pairing_allowed env \<longrightarrow>
      btheadset_control_management_callback env st (BTM_SECURITY_REQUEST_EVT bd_addr) =
        Some (WICED_BT_ERROR, BTM_SECURITY_REQUEST_EVT bd_addr, st, []))"
  by simp

theorem security_request_spec_witness:
  "\<not> pairing_allowed example_env \<and>
   btheadset_control_management_callback example_env example_state
       (BTM_SECURITY_REQUEST_EVT [1, 2, 3, 4, 5, 6]) =
     Some (WICED_BT_ERROR, BTM_SECURITY_REQUEST_EVT [1, 2, 3, 4, 5, 6], example_state, []) \<and>
   pairing_allowed (example_env\<lparr>pairing_allowed := True\<rparr>) \<and>
   btheadset_control_management_callback (example_env\<lparr>pairing_allowed := True\<rparr>) example_state
       (BTM_SECURITY_REQUEST_EVT [1, 2, 3, 4, 5, 6]) =
     Some (WICED_BT_SUCCESS, BTM_SECURITY_REQUEST_EVT [1, 2, 3, 4, 5, 6], example_state,
           [wiced_bt_ble_security_grant [1, 2, 3, 4, 5, 6] WICED_BT_SUCCESS])"
  using security_request_spec [of example_env example_state "[1, 2, 3, 4, 5, 6]"]
    security_request_spec [of "example_env\<lparr>pairing_allowed := True\<rparr>" example_state "[1, 2, 3, 4, 5, 6]"]
  by (simp add: example_env_def)

text \<open>
  C9: each of the four SCO events goes to \<^verbatim>\<open>hf_sco_management_callback\<close> as it came. On
  \<^verbatim>\<open>BTM_SCO_DISCONNECTED_EVT\<close> the ring is then reset: length and both cursors are 0 and the
  array holds 1024 zero bytes. On the other three events nothing else changes.
\<close>

theorem sco_event_spec:
  assumes "length (buffer (headset_control_mic_data st)) = 1024"
    and "ev \<in> {BTM_SCO_CONNECTED_EVT d, BTM_SCO_DISCONNECTED_EVT d,
                BTM_SCO_CONNECTION_REQUEST_EVT d, BTM_SCO_CONNECTION_CHANGE_EVT d}"
  shows "\<exists>st'. btheadset_control_management_callback env st ev =
            Some (WICED_BT_SUCCESS, ev, st', [hf_sco_management_callback ev]) \<and>
          (if ev = BTM_SCO_DISCONNECTED_EVT d
           then local_irk_info st' = local_irk_info st \<and>
                p_mutex (headset_control_mic_data st') = p_mutex (headset_control_mic_data st) \<and>
                data_len (headset_control_mic_data st') = 0 \<and>
                index_start (headset_control_mic_data st') = 0 \<and>
                index_end (headset_control_mic_data st') = 0 \<and>
                buffer (headset_control_mic_data st') = replicate 1024 0
           else st' = st)"
  using assms
  by (auto simp: sco_case_def headset_control_mic_data_reset_def memset_def)

theorem sco_event_spec_witness:
  "length (buffer (headset_control_mic_data example_state)) = 1024 \<and>
   (\<exists>st'. btheadset_control_management_callback example_env example_state (BTM_SCO_DISCONNECTED_EVT [0]) =
            Some (WICED_BT_SUCCESS, BTM_SCO_DISCONNECTED_EVT [0], st',
                  [hf_sco_management_callback (BTM_SCO_DISCONNECTED_EVT [0])]) \<and>
      data_len (headset_control_mic_data st') = 0 \<and>
      index_start (headset_control_mic_data st') = 0 \<and>
      index_end (headset_control_mic_data st') = 0 \<and>
      buffer (headset_control_mic_data st') = replicate 1024 0) \<and>
   btheadset_control_management_callback example_env example_state (BTM_SCO_CONNECTED_EVT [0]) =
     Some (WICED_BT_SUCCESS, BTM_SCO_CONNECTED_EVT [0], example_state,
           [hf_sco_management_callback (BTM_SCO_CONNECTED_EVT [0])])"
proof -
  have h: "length (buffer (headset_control_mic_data example_state)) = 1024"
    by (simp add: example_state_def example_stored_ring_def)
  from sco_event_spec [OF h, of "BTM_SCO_DISCONNECTED_EVT [0]" "[0]" example_env]
    sco_event_spec [OF h, of "BTM_SCO_CONNECTED_EVT [0]" "[0]" example_env]
  show ?thesis using h by auto
qed

end
